theory Spec2Isabelle
  imports Complex_Main "HOL-Library.Word"
begin

text \<open>
  A shallow embedding of \<^verbatim>\<open>src/Common/ZooKeeper/ZooKeeperWithFaultInjection.h\<close>: the
  fault policy \<^verbatim>\<open>RandomFaultInjection\<close> and the proxy \<^verbatim>\<open>ZooKeeperWithFaultInjection\<close>
  with its template \<^verbatim>\<open>access\<close>, the multi-operation methods, \<^verbatim>\<open>tryCreate\<close>, the
  asynchronous methods and \<^verbatim>\<open>cleanupEphemeralNodes\<close>.  The state of the proxy and of its
  surroundings is passed explicitly; a call returns \<open>Inr\<close> or throws \<open>Inl\<close>.  The real
  client, the random generator and \<^verbatim>\<open>Coordination::isHardwareError\<close> are parameters.
  The definitions come first, the properties C1 to C10 after them.
\<close>

section \<open>Errors, exceptions, requests and responses\<close>

text \<open>
  \<^verbatim>\<open>Coordination::Error\<close>: the enumerators that \<^verbatim>\<open>ZooKeeperWithFaultInjection.h\<close> names,
  and \<open>ZOTHER n\<close> for every other code of the enumeration (by its numeric value).
\<close>

datatype Error =
    ZOK
  | ZNONODE
  | ZBADVERSION
  | ZNOTEMPTY
  | ZNODEEXISTS
  | ZSESSIONEXPIRED
  | ZOPERATIONTIMEOUT
  | ZOTHER int

text \<open>\<^verbatim>\<open>DB::ErrorCodes\<close>: only \<^verbatim>\<open>LOGICAL_ERROR\<close> is named by the header.\<close>

datatype ErrorCodes = LOGICAL_ERROR | OTHER_CODE nat

text \<open>
  What a C++ call can throw: a \<^verbatim>\<open>zkutil::KeeperException\<close> with its code, a
  \<^verbatim>\<open>DB::Exception\<close> with its code, any other exception, and \<open>null_dereference\<close>
  for a call through a null \<^verbatim>\<open>zk::Ptr\<close> (undefined behaviour in C++, a distinct
  outcome here so that no definition hides it).  A call returns \<open>Inr v\<close> or throws
  \<open>Inl x\<close>.
\<close>

datatype exn =
    KeeperException Error
  | Exception ErrorCodes
  | std_exception
  | null_dereference

type_synonym 'a result = "exn + 'a"

text \<open>\<^verbatim>\<open>zkutil::CreateMode\<close>; \<open>OtherMode n\<close> is an \<^verbatim>\<open>int32_t\<close> that is none of the four.\<close>

datatype CreateMode =
    Persistent
  | Ephemeral
  | PersistentSequential
  | EphemeralSequential
  | OtherMode int

text \<open>
  \<^verbatim>\<open>Coordination::Request\<close> and its subclasses, as far as the header inspects them:
  \<^verbatim>\<open>dynamic_cast<const CreateRequest *>\<close>, \<^verbatim>\<open>is_ephemeral\<close>, \<^verbatim>\<open>getPath()\<close>.
\<close>

datatype Request =
    CreateRequest string string bool bool
  | RemoveRequest string int
  | OtherRequest string

fun getPath :: "Request \<Rightarrow> string" where
  "getPath (CreateRequest path data is_ephemeral is_sequential) = path"
| "getPath (RemoveRequest path version) = path"
| "getPath (OtherRequest path) = path"

fun is_ephemeral_create :: "Request \<Rightarrow> bool" where
  "is_ephemeral_create (CreateRequest path data is_ephemeral is_sequential) = is_ephemeral"
| "is_ephemeral_create (RemoveRequest path version) = False"
| "is_ephemeral_create (OtherRequest path) = False"

text \<open>
  \<^verbatim>\<open>Coordination::Response\<close> and its subclasses: every response has \<^verbatim>\<open>error\<close>, a
  \<^verbatim>\<open>CreateResponse\<close> has \<^verbatim>\<open>path_created\<close> as well.  Of a \<^verbatim>\<open>MultiResponse\<close> the
  header touches \<^verbatim>\<open>responses\<close> only, so a multi response is a \<open>Response list\<close>.
\<close>

datatype Response =
    CreateResponse Error string
  | RemoveResponse Error
  | ExistsResponse Error
  | GetResponse Error string
  | ZooKeeperErrorResponse Error
  | OtherResponse Error

fun error :: "Response \<Rightarrow> Error" where
  "error (CreateResponse e path_created) = e"
| "error (RemoveResponse e) = e"
| "error (ExistsResponse e) = e"
| "error (GetResponse e data) = e"
| "error (ZooKeeperErrorResponse e) = e"
| "error (OtherResponse e) = e"

section \<open>RandomFaultInjection\<close>

text \<open>
  \<^verbatim>\<open>pcg64_fast rndgen\<close> is a generator state of type \<open>'g\<close>; \<^verbatim>\<open>distribution\<close> holds the
  probability of the \<^verbatim>\<open>std::bernoulli_distribution\<close>.  The draw \<^verbatim>\<open>distribution(rndgen)\<close>
  is a parameter: from the probability and the generator it gives the outcome and the
  advanced generator.
\<close>

record 'g RandomFaultInjection =
  must_fail_after_op :: bool
  must_fail_before_op :: bool
  rndgen :: 'g
  distribution :: real

type_synonym 'g bernoulli = "real \<Rightarrow> 'g \<Rightarrow> bool \<times> 'g"

text \<open>
  \<^verbatim>\<open>if (distribution(rndgen) || must_fail_before_op)\<close>: the left operand of \<^verbatim>\<open>||\<close> is
  evaluated first and always, so the draw happens whatever the flag says.
\<close>

definition beforeOperation ::
  "'g bernoulli \<Rightarrow> 'g RandomFaultInjection \<Rightarrow> unit result \<times> 'g RandomFaultInjection" where
  "beforeOperation draw fp =
     (let (hit, g) = draw (distribution fp) (rndgen fp);
          fp1 = fp\<lparr>rndgen := g\<rparr>
      in if hit \<or> must_fail_before_op fp1
         then (Inl (KeeperException ZSESSIONEXPIRED), fp1\<lparr>must_fail_before_op := False\<rparr>)
         else (Inr (), fp1))"

definition beforeOperationNoThrow ::
  "'g bernoulli \<Rightarrow> 'g RandomFaultInjection \<Rightarrow> bool \<times> 'g RandomFaultInjection" where
  "beforeOperationNoThrow draw fp =
     (let (hit, g) = draw (distribution fp) (rndgen fp);
          fp1 = fp\<lparr>rndgen := g\<rparr>
      in if hit \<or> must_fail_before_op fp1
         then (True, fp1\<lparr>must_fail_before_op := False\<rparr>)
         else (False, fp1))"

definition afterOperation ::
  "'g bernoulli \<Rightarrow> 'g RandomFaultInjection \<Rightarrow> unit result \<times> 'g RandomFaultInjection" where
  "afterOperation draw fp =
     (let (hit, g) = draw (distribution fp) (rndgen fp);
          fp1 = fp\<lparr>rndgen := g\<rparr>
      in if hit \<or> must_fail_after_op fp1
         then (Inl (KeeperException ZOPERATIONTIMEOUT), fp1\<lparr>must_fail_after_op := False\<rparr>)
         else (Inr (), fp1))"

definition afterOperationNoThrow ::
  "'g bernoulli \<Rightarrow> 'g RandomFaultInjection \<Rightarrow> bool \<times> 'g RandomFaultInjection" where
  "afterOperationNoThrow draw fp =
     (let (hit, g) = draw (distribution fp) (rndgen fp);
          fp1 = fp\<lparr>rndgen := g\<rparr>
      in if hit \<or> must_fail_after_op fp1
         then (True, fp1\<lparr>must_fail_after_op := False\<rparr>)
         else (False, fp1))"

text \<open>
  A scripted source of draws for concrete runs: the generator is the list of outcomes
  still to come, a draw takes the head.  An exhausted script gives \<open>False\<close>.
\<close>

fun scripted :: "bool list bernoulli" where
  "scripted p [] = (False, [])"
| "scripted p (b # bs) = (b, bs)"

definition forced_before :: "bool list RandomFaultInjection" where
  "forced_before =
     \<lparr>must_fail_after_op = False, must_fail_before_op = True,
      rndgen = [False, False], distribution = 1 / 2\<rparr>"

definition forced_after :: "bool list RandomFaultInjection" where
  "forced_after =
     \<lparr>must_fail_after_op = True, must_fail_before_op = False,
      rndgen = [False, False], distribution = 1 / 2\<rparr>"

section \<open>The real client, as the proxy sees it\<close>

text \<open>
  A call the proxy makes on a \<^verbatim>\<open>zkutil::ZooKeeper\<close>.  \<open>Method f p\<close> stands for any
  method that a mirror method forwards to with nothing of its own around the call
  (\<^verbatim>\<open>getChildren\<close>, \<^verbatim>\<open>get\<close>, \<^verbatim>\<open>exists\<close>, \<^verbatim>\<open>trySet\<close> and so on), \<open>Impl...\<close> for
  the requests submitted through \<^verbatim>\<open>keeper->impl\<close>.
\<close>

datatype call =
    Remove string int
  | TryRemove string int
  | Multi "Request list"
  | TryMulti "Request list"
  | TryMultiNoThrow "Request list"
  | TryCreate string string CreateMode
  | ImplExists string
  | ImplGet string
  | ImplMulti "Request list"
  | ImplCreate string string CreateMode
  | ImplRemove string int
  | Method string string

text \<open>
  What the header takes from outside: \<^verbatim>\<open>Coordination::isHardwareError\<close>, the draw of
  the Bernoulli distribution, \<^verbatim>\<open>randomSeed()\<close>, the seeding of \<^verbatim>\<open>pcg64_fast\<close>, and
  the methods of the real client.  A client is a value of type \<open>'k\<close>; a method takes
  it and gives back what the call returns or throws, what it wrote to a reference
  argument (\<^verbatim>\<open>responses\<close>, \<^verbatim>\<open>path_created\<close>), and the client after the call.
\<close>

record ('k, 'g) env =
  isHardwareError :: "Error \<Rightarrow> bool"
  bernoulli_draw :: "'g bernoulli"
  randomSeed :: "64 word"
  pcg64_fast :: "64 word \<Rightarrow> 'g"
  k_remove :: "string \<Rightarrow> int \<Rightarrow> 'k \<Rightarrow> unit result \<times> 'k"
  k_tryRemove :: "string \<Rightarrow> int \<Rightarrow> 'k \<Rightarrow> Error result \<times> 'k"
  k_multi :: "Request list \<Rightarrow> 'k \<Rightarrow> Response list result \<times> 'k"
  k_tryMulti :: "Request list \<Rightarrow> Response list \<Rightarrow> 'k \<Rightarrow> (Error result \<times> Response list) \<times> 'k"
  k_tryMultiNoThrow ::
    "Request list \<Rightarrow> Response list \<Rightarrow> 'k \<Rightarrow> (Error result \<times> Response list) \<times> 'k"
  k_tryCreate :: "string \<Rightarrow> string \<Rightarrow> CreateMode \<Rightarrow> 'k \<Rightarrow> (Error result \<times> string) \<times> 'k"
  k_impl :: "call \<Rightarrow> 'k \<Rightarrow> unit result \<times> 'k"

section \<open>ZooKeeperWithFaultInjection: the object and its surroundings\<close>

text \<open>A line written with \<^verbatim>\<open>LOG_TRACE\<close> or \<^verbatim>\<open>tryLogCurrentException\<close>.\<close>

datatype log_line =
    call_FAILED "64 word" string string Error
  | injected_fault_before "64 word" string string
  | injected_fault_after "64 word" string string
  | cleanup_done "64 word" string string string Error
  | cleanup_FAILED "64 word" string string string Error
  | cleanup_exception

text \<open>
  The surroundings: the client objects by address (a \<^verbatim>\<open>zk::Ptr\<close> is an address or
  null, and \<^verbatim>\<open>keeper\<close> and \<^verbatim>\<open>keeper_prev\<close> may point to the same client), every call a
  real client has received, oldest first, and the lines logged.
\<close>

record 'k world =
  clients :: "nat \<Rightarrow> 'k"
  calls :: "(nat \<times> call) list"
  trace :: "log_line list"

text \<open>The members of the class; \<open>logger\<close> says whether \<^verbatim>\<open>Poco::Logger * logger\<close> is set.\<close>

record ('k, 'g) state = "'k world" +
  keeper :: "nat option"
  keeper_prev :: "nat option"
  fault_policy :: "'g RandomFaultInjection option"
  name :: string
  logger :: bool
  seed :: "64 word"
  ephemeral_nodes :: "string list"

text \<open>
  \<^verbatim>\<open>createInstance\<close>.  The probability is a \<^verbatim>\<open>double\<close>, taken here as a real number
  (a value that is not a number fails all three comparisons and is outside this
  model); \<open>w\<close> is the surroundings in which the proxy is created.
\<close>

definition createInstance ::
  "('k, 'g) env \<Rightarrow> real \<Rightarrow> 64 word \<Rightarrow> nat option \<Rightarrow> string \<Rightarrow> bool \<Rightarrow> 'k world
     \<Rightarrow> ('k, 'g) state" where
  "createInstance env fault_injection_probability fault_injection_seed zookeeper name1 logger1 w =
     (let probability =
            (if fault_injection_probability < 0 then 0
             else if fault_injection_probability > 1 then 1
             else fault_injection_probability);
          seed1 = (if 0 = fault_injection_seed then randomSeed env else fault_injection_seed)
      in if probability > 0
         then \<lparr>clients = clients w, calls = calls w, trace = trace w,
               keeper = zookeeper, keeper_prev = None,
               fault_policy =
                 Some \<lparr>must_fail_after_op = False, must_fail_before_op = False,
                       rndgen = pcg64_fast env seed1, distribution = probability\<rparr>,
               name = name1, logger = logger1, seed = seed1, ephemeral_nodes = []\<rparr>
         else \<lparr>clients = clients w, calls = calls w, trace = trace w,
               keeper = zookeeper, keeper_prev = None, fault_policy = None,
               name = [], logger = False, seed = 0, ephemeral_nodes = []\<rparr>)"

definition setKeeper :: "nat option \<Rightarrow> ('k, 'g) state \<Rightarrow> ('k, 'g) state" where
  "setKeeper keeper1 s = s\<lparr>keeper := keeper1\<rparr>"

definition isNull :: "('k, 'g) state \<Rightarrow> bool" where
  "isNull s = (keeper s = None)"

text \<open>\<^verbatim>\<open>if (logger) LOG_TRACE(logger, ...)\<close>.\<close>

definition LOG_TRACE :: "log_line \<Rightarrow> ('k, 'g) state \<Rightarrow> ('k, 'g) state" where
  "LOG_TRACE line s = (if logger s then s\<lparr>trace := trace s @ [line]\<rparr> else s)"

text \<open>A method \<open>f\<close> called on the client at address \<open>a\<close>: the call is recorded.\<close>

definition call_client ::
  "nat \<Rightarrow> call \<Rightarrow> ('k \<Rightarrow> 'x \<times> 'k) \<Rightarrow> ('k, 'g) state \<Rightarrow> 'x \<times> ('k, 'g) state" where
  "call_client a c f s =
     (case f (clients s a) of
        (x, k) \<Rightarrow> (x, s\<lparr>clients := (clients s)(a := k), calls := calls s @ [(a, c)]\<rparr>))"

text \<open>
  \<^verbatim>\<open>keeper->f(...)\<close> inside a lambda that captures by reference.  The lambda runs
  with the locals \<open>l\<close> of the enclosing method; \<open>keeper_call\<close> is for a method that
  writes to none of them, \<open>keeper_call_out\<close> for one that writes to a reference
  argument.
\<close>

definition keeper_call ::
  "call \<Rightarrow> ('k \<Rightarrow> 'r result \<times> 'k) \<Rightarrow> 'l \<times> ('k, 'g) state \<Rightarrow> 'r result \<times> 'l \<times> ('k, 'g) state" where
  "keeper_call c f = (\<lambda>(l, s).
     case keeper s of
       None \<Rightarrow> (Inl null_dereference, l, s)
     | Some a \<Rightarrow> (case call_client a c f s of (r, s') \<Rightarrow> (r, l, s')))"

definition keeper_call_out ::
  "call \<Rightarrow> ('l \<Rightarrow> 'k \<Rightarrow> ('r result \<times> 'l) \<times> 'k) \<Rightarrow> 'l \<times> ('k, 'g) state
     \<Rightarrow> 'r result \<times> 'l \<times> ('k, 'g) state" where
  "keeper_call_out c f = (\<lambda>(l, s).
     case keeper s of
       None \<Rightarrow> (Inl null_dereference, l, s)
     | Some a \<Rightarrow> (case call_client a c (f l) s of ((r, l'), s') \<Rightarrow> (r, l', s')))"

section \<open>access: the two checkpoints around a call\<close>

text \<open>
  \<^verbatim>\<open>faultInjectionBefore(fault_cleanup)\<close>.  The cleanup given to it by \<^verbatim>\<open>access\<close> writes
  to locals of the calling method only (\<^verbatim>\<open>responses\<close> in \<^verbatim>\<open>tryMulti\<close>).
\<close>

definition faultInjectionBefore ::
  "('k, 'g) env \<Rightarrow> ('l \<Rightarrow> 'l) \<Rightarrow> 'l \<times> ('k, 'g) state \<Rightarrow> unit result \<times> 'l \<times> ('k, 'g) state" where
  "faultInjectionBefore env fault_cleanup = (\<lambda>(l, s).
     case fault_policy s of
       None \<Rightarrow> (Inr (), l, s)
     | Some fp \<Rightarrow>
         (case beforeOperation (bernoulli_draw env) fp of
            (Inl x, fp') \<Rightarrow>
              (case x of
                 KeeperException e \<Rightarrow> (Inl x, fault_cleanup l, s\<lparr>fault_policy := Some fp'\<rparr>)
               | _ \<Rightarrow> (Inl x, l, s\<lparr>fault_policy := Some fp'\<rparr>))
          | (Inr u, fp') \<Rightarrow> (Inr u, l, s\<lparr>fault_policy := Some fp'\<rparr>)))"

text \<open>
  \<^verbatim>\<open>faultInjectionAfter(fault_cleanup)\<close>.  The cleanup runs inside the handler; when it
  throws, its exception leaves the handler in place of the injected one.
\<close>

definition faultInjectionAfter ::
  "('k, 'g) env \<Rightarrow> ('l \<times> ('k, 'g) state \<Rightarrow> unit result \<times> 'l \<times> ('k, 'g) state)
     \<Rightarrow> 'l \<times> ('k, 'g) state \<Rightarrow> unit result \<times> 'l \<times> ('k, 'g) state" where
  "faultInjectionAfter env fault_cleanup = (\<lambda>(l, s).
     case fault_policy s of
       None \<Rightarrow> (Inr (), l, s)
     | Some fp \<Rightarrow>
         (case afterOperation (bernoulli_draw env) fp of
            (Inl x, fp') \<Rightarrow>
              (case x of
                 KeeperException e \<Rightarrow>
                   (case fault_cleanup (l, s\<lparr>fault_policy := Some fp'\<rparr>) of
                      (Inl y, \<sigma>) \<Rightarrow> (Inl y, \<sigma>)
                    | (Inr u, \<sigma>) \<Rightarrow> (Inl x, \<sigma>))
               | _ \<Rightarrow> (Inl x, l, s\<lparr>fault_policy := Some fp'\<rparr>))
          | (Inr u, fp') \<Rightarrow> (Inr u, l, s\<lparr>fault_policy := Some fp'\<rparr>)))"

text \<open>
  The \<^verbatim>\<open>try\<close> block of \<^verbatim>\<open>access\<close>.  \<open>connectivity_error\<close> is the test
  \<^verbatim>\<open>Coordination::isHardwareError(res)\<close> when \<^verbatim>\<open>Result\<close> is \<^verbatim>\<open>Coordination::Error\<close>, and
  constantly false for every other \<^verbatim>\<open>Result\<close> (the \<^verbatim>\<open>if constexpr\<close> drops the test).
  For \<^verbatim>\<open>Result = void\<close> the result is \<open>()\<close>.
\<close>

definition access_try ::
  "('k, 'g) env \<Rightarrow> bool \<Rightarrow> bool \<Rightarrow> ('r \<Rightarrow> bool)
     \<Rightarrow> ('l \<times> ('k, 'g) state \<Rightarrow> 'r result \<times> 'l \<times> ('k, 'g) state)
     \<Rightarrow> ('r \<Rightarrow> 'l \<times> ('k, 'g) state \<Rightarrow> unit result \<times> 'l \<times> ('k, 'g) state) option
     \<Rightarrow> ('l \<Rightarrow> 'l) option
     \<Rightarrow> 'l \<times> ('k, 'g) state \<Rightarrow> 'r result \<times> 'l \<times> ('k, 'g) state" where
  "access_try env inject_failure_before_op inject_failure_after_op connectivity_error
       operation fault_after_op_cleanup fault_before_op_cleanup = (\<lambda>(l, s).
     if keeper s = None then (Inl (KeeperException ZSESSIONEXPIRED), l, s)
     else
       (case (if inject_failure_before_op
              then faultInjectionBefore env
                     (case fault_before_op_cleanup of None \<Rightarrow> (\<lambda>l. l) | Some cleanup \<Rightarrow> cleanup)
                     (l, s)
              else (Inr (), l, s)) of
          (Inl x, \<sigma>1) \<Rightarrow> (Inl x, \<sigma>1)
        | (Inr u, \<sigma>1) \<Rightarrow>
            (case operation \<sigma>1 of
               (Inl x, \<sigma>2) \<Rightarrow> (Inl x, \<sigma>2)
             | (Inr res, \<sigma>2) \<Rightarrow>
                 if connectivity_error res then (Inr res, \<sigma>2)
                 else if inject_failure_after_op
                 then (case faultInjectionAfter env
                              (case fault_after_op_cleanup of
                                 None \<Rightarrow> (\<lambda>\<sigma>. (Inr (), \<sigma>))
                               | Some cleanup \<Rightarrow> cleanup res)
                              \<sigma>2 of
                         (Inl x, \<sigma>3) \<Rightarrow> (Inl x, \<sigma>3)
                       | (Inr u, \<sigma>3) \<Rightarrow> (Inr res, \<sigma>3))
                 else (Inr res, \<sigma>2))))"

text \<open>
  The head of the handler \<^verbatim>\<open>catch (const zkutil::KeeperException & e)\<close>: the line
  logged, and \<^verbatim>\<open>keeper_prev = keeper\<close> when \<^verbatim>\<open>keeper\<close> is not null.
\<close>

definition access_caught :: "string \<Rightarrow> string \<Rightarrow> Error \<Rightarrow> ('k, 'g) state \<Rightarrow> ('k, 'g) state" where
  "access_caught func_name path code s =
     (let s1 = LOG_TRACE (call_FAILED (seed s) func_name path code) s
      in if keeper s1 \<noteq> None then s1\<lparr>keeper_prev := keeper s1\<rparr> else s1)"

text \<open>
  \<^verbatim>\<open>access\<close> for \<^verbatim>\<open>Result = Coordination::Error\<close>.  After the head of the handler:
  \<^verbatim>\<open>no_throw_access\<close> returns the code; otherwise a hardware error is thrown again and
  every other code is returned.  An exception that is not a \<^verbatim>\<open>KeeperException\<close>
  passes through.
\<close>

definition access_Error ::
  "('k, 'g) env \<Rightarrow> bool \<Rightarrow> bool \<Rightarrow> bool \<Rightarrow> string \<Rightarrow> string
     \<Rightarrow> ('l \<times> ('k, 'g) state \<Rightarrow> Error result \<times> 'l \<times> ('k, 'g) state)
     \<Rightarrow> (Error \<Rightarrow> 'l \<times> ('k, 'g) state \<Rightarrow> unit result \<times> 'l \<times> ('k, 'g) state) option
     \<Rightarrow> ('l \<Rightarrow> 'l) option
     \<Rightarrow> 'l \<times> ('k, 'g) state \<Rightarrow> Error result \<times> 'l \<times> ('k, 'g) state" where
  "access_Error env no_throw_access inject_failure_before_op inject_failure_after_op
       func_name path operation fault_after_op_cleanup fault_before_op_cleanup \<sigma> =
     (case access_try env inject_failure_before_op inject_failure_after_op (isHardwareError env)
             operation fault_after_op_cleanup fault_before_op_cleanup \<sigma> of
        (Inr res, l, s) \<Rightarrow> (Inr res, l, s)
      | (Inl x, l, s) \<Rightarrow>
          (case x of
             KeeperException code \<Rightarrow>
               (if no_throw_access then (Inr code, l, access_caught func_name path code s)
                else if isHardwareError env code
                then (Inl x, l, access_caught func_name path code s)
                else (Inr code, l, access_caught func_name path code s))
           | _ \<Rightarrow> (Inl x, l, s)))"

text \<open>
  \<^verbatim>\<open>access\<close> for every other \<^verbatim>\<open>Result\<close>, \<^verbatim>\<open>void\<close> included, with
  \<^verbatim>\<open>no_throw_access = false\<close> (returning \<^verbatim>\<open>e.code\<close> needs \<^verbatim>\<open>Result = Error\<close>): after the
  head of the handler the exception is thrown again.
\<close>

definition access ::
  "('k, 'g) env \<Rightarrow> bool \<Rightarrow> bool \<Rightarrow> string \<Rightarrow> string
     \<Rightarrow> ('l \<times> ('k, 'g) state \<Rightarrow> 'r result \<times> 'l \<times> ('k, 'g) state)
     \<Rightarrow> ('r \<Rightarrow> 'l \<times> ('k, 'g) state \<Rightarrow> unit result \<times> 'l \<times> ('k, 'g) state) option
     \<Rightarrow> ('l \<Rightarrow> 'l) option
     \<Rightarrow> 'l \<times> ('k, 'g) state \<Rightarrow> 'r result \<times> 'l \<times> ('k, 'g) state" where
  "access env inject_failure_before_op inject_failure_after_op
       func_name path operation fault_after_op_cleanup fault_before_op_cleanup \<sigma> =
     (case access_try env inject_failure_before_op inject_failure_after_op (\<lambda>res. False)
             operation fault_after_op_cleanup fault_before_op_cleanup \<sigma> of
        (Inr res, l, s) \<Rightarrow> (Inr res, l, s)
      | (Inl x, l, s) \<Rightarrow>
          (case x of
             KeeperException code \<Rightarrow> (Inl x, l, access_caught func_name path code s)
           | _ \<Rightarrow> (Inl x, l, s)))"

text \<open>
  The mirror methods that are one \<^verbatim>\<open>access\<close> around one call of the same method of the
  real client, with the default template arguments and no cleanup: \<open>forward\<close> for
  those whose result is not an error code (\<^verbatim>\<open>getChildren\<close>, \<^verbatim>\<open>tryGet\<close>, \<^verbatim>\<open>get\<close>,
  \<^verbatim>\<open>set\<close>, \<^verbatim>\<open>remove\<close>, \<^verbatim>\<open>exists\<close>, \<^verbatim>\<open>createOrUpdate\<close>, \<^verbatim>\<open>sync\<close>, ...), and
  \<open>forward_Error\<close> for those whose result is a \<^verbatim>\<open>Coordination::Error\<close>
  (\<^verbatim>\<open>tryGetChildren\<close>, \<^verbatim>\<open>tryGetChildrenWatch\<close>, \<^verbatim>\<open>tryRemove\<close>, \<^verbatim>\<open>trySet\<close>).  The method
  of the real client is the parameter \<open>method\<close>.
\<close>

definition forward ::
  "('k, 'g) env \<Rightarrow> string \<Rightarrow> string \<Rightarrow> call \<Rightarrow> ('k \<Rightarrow> 'r result \<times> 'k)
     \<Rightarrow> ('k, 'g) state \<Rightarrow> 'r result \<times> ('k, 'g) state" where
  "forward env func_name path c method s =
     (case access env True True func_name path (keeper_call c method) None None ((), s) of
        (r, l, s') \<Rightarrow> (r, s'))"

definition forward_Error ::
  "('k, 'g) env \<Rightarrow> string \<Rightarrow> string \<Rightarrow> call \<Rightarrow> ('k \<Rightarrow> Error result \<times> 'k)
     \<Rightarrow> ('k, 'g) state \<Rightarrow> Error result \<times> ('k, 'g) state" where
  "forward_Error env func_name path c method s =
     (case access_Error env False True True func_name path (keeper_call c method) None None ((), s) of
        (r, l, s') \<Rightarrow> (r, s'))"

definition tryRemove ::
  "('k, 'g) env \<Rightarrow> string \<Rightarrow> int \<Rightarrow> ('k, 'g) state \<Rightarrow> Error result \<times> ('k, 'g) state" where
  "tryRemove env path version =
     forward_Error env ''tryRemove'' path (TryRemove path version) (k_tryRemove env path version)"



section \<open>Ephemeral nodes created by a batch\<close>

text \<open>
  The first loop of \<^verbatim>\<open>doForEachCreatedEphemeralNode\<close>: the create requests with the
  ephemeral flag, each with its index in the batch.
\<close>

fun create_requests :: "nat \<Rightarrow> Request list \<Rightarrow> (nat \<times> Request) list" where
  "create_requests i [] = []"
| "create_requests i (r # rs) =
     (if is_ephemeral_create r then (i, r) # create_requests (Suc i) rs
      else create_requests (Suc i) rs)"

text \<open>
  The second loop: \<^verbatim>\<open>responses.at(i)\<close> (which throws \<^verbatim>\<open>std::out_of_range\<close> past the end),
  the cast to \<^verbatim>\<open>CreateResponse\<close>, and the action on \<^verbatim>\<open>path_created\<close>.  An action that
  throws ends the loop.
\<close>

fun for_each_create_request ::
  "(nat \<times> Request) list \<Rightarrow> Response list \<Rightarrow> (string \<Rightarrow> 's \<Rightarrow> unit result \<times> 's) \<Rightarrow> 's
     \<Rightarrow> unit result \<times> 's" where
  "for_each_create_request [] responses action \<sigma> = (Inr (), \<sigma>)"
| "for_each_create_request ((i, req) # rest) responses action \<sigma> =
     (if length responses \<le> i then (Inl std_exception, \<sigma>)
      else
        (case responses ! i of
           CreateResponse e path_created \<Rightarrow>
             (case action path_created \<sigma> of
                (Inl x, \<sigma>') \<Rightarrow> (Inl x, \<sigma>')
              | (Inr u, \<sigma>') \<Rightarrow> for_each_create_request rest responses action \<sigma>')
         | _ \<Rightarrow> (Inl (Exception LOGICAL_ERROR), \<sigma>)))"

definition doForEachCreatedEphemeralNode ::
  "string \<Rightarrow> Request list \<Rightarrow> Response list \<Rightarrow> (string \<Rightarrow> 's \<Rightarrow> unit result \<times> 's) \<Rightarrow> 's
     \<Rightarrow> unit result \<times> 's" where
  "doForEachCreatedEphemeralNode method requests responses action \<sigma> =
     (if responses = [] then (Inr (), \<sigma>)
      else if length responses \<noteq> length requests then (Inl (Exception LOGICAL_ERROR), \<sigma>)
      else for_each_create_request (create_requests 0 requests) responses action \<sigma>)"

text \<open>The two actions the header passes: \<^verbatim>\<open>keeper->remove(path_created)\<close> and
  \<^verbatim>\<open>ephemeral_nodes.push_back(path_created)\<close>.\<close>

definition remove_created ::
  "('k, 'g) env \<Rightarrow> string \<Rightarrow> 'l \<times> ('k, 'g) state \<Rightarrow> unit result \<times> 'l \<times> ('k, 'g) state" where
  "remove_created env path_created =
     keeper_call (Remove path_created (- 1)) (k_remove env path_created (- 1))"

definition push_back_created :: "string \<Rightarrow> ('k, 'g) state \<Rightarrow> unit result \<times> ('k, 'g) state" where
  "push_back_created path_created s =
     (Inr (), s\<lparr>ephemeral_nodes := ephemeral_nodes s @ [path_created]\<rparr>)"

definition faultInjectionPostAction ::
  "('k, 'g) env \<Rightarrow> string \<Rightarrow> Request list \<Rightarrow> Response list \<Rightarrow> 'l \<times> ('k, 'g) state
     \<Rightarrow> unit result \<times> 'l \<times> ('k, 'g) state" where
  "faultInjectionPostAction env method requests responses =
     doForEachCreatedEphemeralNode method requests responses (remove_created env)"

section \<open>The multi-operation methods\<close>

definition front_path :: "Request list \<Rightarrow> string" where
  "front_path requests = (if requests \<noteq> [] then getPath (hd requests) else [])"

text \<open>\<^verbatim>\<open>responses.clear()\<close> and one \<^verbatim>\<open>ZooKeeperErrorResponse\<close> per request.\<close>

definition error_responses :: "Request list \<Rightarrow> Error \<Rightarrow> Response list" where
  "error_responses requests e = replicate (length requests) (ZooKeeperErrorResponse e)"

text \<open>
  What follows \<^verbatim>\<open>access\<close> in \<^verbatim>\<open>tryMulti\<close> and \<^verbatim>\<open>tryMultiNoThrow\<close>: the paths of the
  batch are collected when a policy is set and the code is \<^verbatim>\<open>ZOK\<close>.
\<close>

definition collect_after_tryMulti ::
  "string \<Rightarrow> Request list \<Rightarrow> Error result \<times> Response list \<times> ('k, 'g) state
     \<Rightarrow> Error result \<times> Response list \<times> ('k, 'g) state" where
  "collect_after_tryMulti method requests = (\<lambda>(r, responses, s).
     case r of
       Inl x \<Rightarrow> (Inl x, responses, s)
     | Inr err \<Rightarrow>
         if fault_policy s \<noteq> None \<and> ZOK = err
         then (case doForEachCreatedEphemeralNode method requests responses push_back_created s of
                 (Inl x, s') \<Rightarrow> (Inl x, responses, s')
               | (Inr u, s') \<Rightarrow> (Inr err, responses, s'))
         else (Inr err, responses, s))"

definition tryMulti ::
  "('k, 'g) env \<Rightarrow> Request list \<Rightarrow> Response list \<Rightarrow> ('k, 'g) state
     \<Rightarrow> Error result \<times> Response list \<times> ('k, 'g) state" where
  "tryMulti env requests responses s =
     collect_after_tryMulti ''tryMulti'' requests
       (access_Error env False True True ''tryMulti'' (front_path requests)
          (keeper_call_out (TryMulti requests) (k_tryMulti env requests))
          (Some (\<lambda>original_error \<sigma>.
             if original_error = ZOK
             then faultInjectionPostAction env ''tryMulti'' requests (fst \<sigma>) \<sigma>
             else (Inr (), \<sigma>)))
          (Some (\<lambda>responses. error_responses requests ZOPERATIONTIMEOUT))
          (responses, s))"

definition tryMultiNoThrow ::
  "('k, 'g) env \<Rightarrow> Request list \<Rightarrow> Response list \<Rightarrow> ('k, 'g) state
     \<Rightarrow> Error result \<times> Response list \<times> ('k, 'g) state" where
  "tryMultiNoThrow env requests responses s =
     collect_after_tryMulti ''tryMultiNoThrow'' requests
       (access_Error env True False True ''tryMultiNoThrow'' (front_path requests)
          (keeper_call_out (TryMultiNoThrow requests) (k_tryMultiNoThrow env requests))
          (Some (\<lambda>original_error \<sigma>.
             if original_error = ZOK
             then faultInjectionPostAction env ''tryMultiNoThrow'' requests (fst \<sigma>) \<sigma>
             else (Inr (), \<sigma>)))
          (Some (\<lambda>responses. error_responses requests ZOPERATIONTIMEOUT))
          (responses, s))"

definition multi ::
  "('k, 'g) env \<Rightarrow> Request list \<Rightarrow> ('k, 'g) state \<Rightarrow> Response list result \<times> ('k, 'g) state" where
  "multi env requests s =
     (case access env True True ''multi'' (front_path requests)
             (keeper_call (Multi requests) (k_multi env requests))
             (Some (\<lambda>responses. faultInjectionPostAction env ''multi'' requests responses))
             None ((), s) of
        (Inl x, l, s1) \<Rightarrow> (Inl x, s1)
      | (Inr result, l, s1) \<Rightarrow>
          if fault_policy s1 \<noteq> None
          then (case doForEachCreatedEphemeralNode ''multi'' requests result push_back_created s1 of
                  (Inl x, s2) \<Rightarrow> (Inl x, s2)
                | (Inr u, s2) \<Rightarrow> (Inr result, s2))
          else (Inr result, s1))"

section \<open>tryCreate, create, createIfNotExists\<close>

definition is_ephemeral_mode :: "CreateMode \<Rightarrow> bool" where
  "is_ephemeral_mode mode = (mode = EphemeralSequential \<or> mode = Ephemeral)"

text \<open>
  The cleanup of \<^verbatim>\<open>tryCreate\<close>; the local is \<^verbatim>\<open>path_created\<close>.  A \<^verbatim>\<open>KeeperException\<close>
  of \<^verbatim>\<open>keeper->remove\<close> is caught and logged, any other exception leaves the lambda.
\<close>

definition tryCreate_cleanup ::
  "('k, 'g) env \<Rightarrow> string \<Rightarrow> CreateMode \<Rightarrow> Error \<Rightarrow> string \<times> ('k, 'g) state
     \<Rightarrow> unit result \<times> string \<times> ('k, 'g) state" where
  "tryCreate_cleanup env path mode code = (\<lambda>(path_created, s).
     if path_created \<noteq> [] \<and> is_ephemeral_mode mode
     then (case remove_created env path_created (path_created, s) of
             (Inr u, l, s') \<Rightarrow>
               (Inr (), l, LOG_TRACE (cleanup_done (seed s') ''tryCreate'' path path_created code) s')
           | (Inl x, l, s') \<Rightarrow>
               (case x of
                  KeeperException e \<Rightarrow>
                    (Inr (), l,
                     LOG_TRACE (cleanup_FAILED (seed s') ''tryCreate'' path path_created e) s')
                | _ \<Rightarrow> (Inl x, l, s')))
     else (Inr (), path_created, s))"

text \<open>
  What follows \<^verbatim>\<open>access\<close> in \<^verbatim>\<open>tryCreate\<close>: the created path is collected when a
  policy is set, the path is not empty and the mode is ephemeral.  An exception leaves
  the method before that.
\<close>

definition collect_after_tryCreate ::
  "CreateMode \<Rightarrow> Error result \<times> string \<times> ('k, 'g) state
     \<Rightarrow> Error result \<times> string \<times> ('k, 'g) state" where
  "collect_after_tryCreate mode = (\<lambda>(r, path_created, s).
     case r of
       Inl x \<Rightarrow> (Inl x, path_created, s)
     | Inr err \<Rightarrow>
         (Inr err, path_created,
          if fault_policy s \<noteq> None \<and> path_created \<noteq> [] \<and> is_ephemeral_mode mode
          then s\<lparr>ephemeral_nodes := ephemeral_nodes s @ [path_created]\<rparr>
          else s))"

definition tryCreate ::
  "('k, 'g) env \<Rightarrow> string \<Rightarrow> string \<Rightarrow> CreateMode \<Rightarrow> string \<Rightarrow> ('k, 'g) state
     \<Rightarrow> Error result \<times> string \<times> ('k, 'g) state" where
  "tryCreate env path data mode path_created0 s =
     collect_after_tryCreate mode
       (access_Error env False True True ''tryCreate'' path
          (keeper_call_out (TryCreate path data mode) (\<lambda>l. k_tryCreate env path data mode))
          (Some (tryCreate_cleanup env path mode))
          None ([], s))"



section \<open>cleanupEphemeralNodes\<close>

text \<open>
  One round of the loop: \<^verbatim>\<open>if (keeper_prev) keeper_prev->tryRemove(path)\<close> inside
  \<^verbatim>\<open>try\<close>, with \<^verbatim>\<open>catch (...)\<close> logging when a logger is set.  The code that
  \<^verbatim>\<open>tryRemove\<close> returns is dropped.
\<close>

definition cleanup_one :: "('k, 'g) env \<Rightarrow> string \<Rightarrow> ('k, 'g) state \<Rightarrow> ('k, 'g) state" where
  "cleanup_one env path s =
     (case keeper_prev s of
        None \<Rightarrow> s
      | Some a \<Rightarrow>
          (case call_client a (TryRemove path (- 1)) (k_tryRemove env path (- 1)) s of
             (Inl x, s') \<Rightarrow> LOG_TRACE cleanup_exception s'
           | (Inr code, s') \<Rightarrow> s'))"

fun cleanup_loop :: "('k, 'g) env \<Rightarrow> string list \<Rightarrow> ('k, 'g) state \<Rightarrow> ('k, 'g) state" where
  "cleanup_loop env [] s = s"
| "cleanup_loop env (path # rest) s = cleanup_loop env rest (cleanup_one env path s)"

definition cleanupEphemeralNodes :: "('k, 'g) env \<Rightarrow> ('k, 'g) state \<Rightarrow> ('k, 'g) state" where
  "cleanupEphemeralNodes env s = (cleanup_loop env (ephemeral_nodes s) s)\<lparr>ephemeral_nodes := []\<rparr>"

section \<open>The asynchronous methods\<close>

text \<open>
  The shared state of a \<^verbatim>\<open>std::promise\<close> and its future: not yet set, set to a value
  (\<^verbatim>\<open>set_value\<close>), or set to an exception (\<^verbatim>\<open>set_exception\<close>) that \<^verbatim>\<open>future::get\<close> will
  throw.
\<close>

datatype 'a promise = Unset | Value 'a | Stored_exception exn

definition injectFailureBeforeOp ::
  "('k, 'g) env \<Rightarrow> 'a promise \<Rightarrow> ('k, 'g) state \<Rightarrow> bool \<times> 'a promise \<times> ('k, 'g) state" where
  "injectFailureBeforeOp env promise s =
     (if keeper s = None
      then (True, Stored_exception (KeeperException ZSESSIONEXPIRED), s)
      else
        (case fault_policy s of
           None \<Rightarrow> (False, promise, s)
         | Some fp \<Rightarrow>
             (case beforeOperationNoThrow (bernoulli_draw env) fp of
                (True, fp') \<Rightarrow>
                  (True, Stored_exception (KeeperException ZSESSIONEXPIRED),
                   s\<lparr>fault_policy := Some fp'\<rparr>)
              | (False, fp') \<Rightarrow> (False, promise, s\<lparr>fault_policy := Some fp'\<rparr>))))"

definition injectFailureAfterOp ::
  "('k, 'g) env \<Rightarrow> 'a promise \<Rightarrow> ('k, 'g) state \<Rightarrow> bool \<times> 'a promise \<times> ('k, 'g) state" where
  "injectFailureAfterOp env promise s =
     (case fault_policy s of
        None \<Rightarrow> (False, promise, s)
      | Some fp \<Rightarrow>
          (case afterOperationNoThrow (bernoulli_draw env) fp of
             (True, fp') \<Rightarrow>
               (True, Stored_exception (KeeperException ZOPERATIONTIMEOUT),
                s\<lparr>fault_policy := Some fp'\<rparr>)
           | (False, fp') \<Rightarrow> (False, promise, s\<lparr>fault_policy := Some fp'\<rparr>)))"

text \<open>
  \<^verbatim>\<open>!keeper || (unlikely(fault_policy) && fault_policy->beforeOperationNoThrow())\<close>, the
  test of the asynchronous \<^verbatim>\<open>NoThrow\<close> methods.
\<close>

definition before_fault_NoThrow :: "('k, 'g) env \<Rightarrow> ('k, 'g) state \<Rightarrow> bool \<times> ('k, 'g) state" where
  "before_fault_NoThrow env s =
     (if keeper s = None then (True, s)
      else
        (case fault_policy s of
           None \<Rightarrow> (False, s)
         | Some fp \<Rightarrow>
             (case beforeOperationNoThrow (bernoulli_draw env) fp of
                (b, fp') \<Rightarrow> (b, s\<lparr>fault_policy := Some fp'\<rparr>))))"

text \<open>
  \<^verbatim>\<open>keeper->impl->...(..., callback)\<close>: the request is handed to the client together
  with the completion callback, and the future is returned with its promise as it is.
  A method returns the state of the promise at the moment it returns, or throws.  The
  completion callbacks themselves are not modelled: they run after the method has
  returned, and the lambdas capture by reference (\<^verbatim>\<open>[&, promise]\<close>) locals and by-value
  parameters of the method (\<^verbatim>\<open>path\<close>, \<^verbatim>\<open>request_size\<close>) that no longer exist then.
\<close>

definition submit ::
  "('k, 'g) env \<Rightarrow> call \<Rightarrow> 'a promise \<Rightarrow> ('k, 'g) state \<Rightarrow> 'a promise result \<times> ('k, 'g) state" where
  "submit env c promise s =
     (case keeper_call c (k_impl env c) ((), s) of
        (Inl x, l, s') \<Rightarrow> (Inl x, s')
      | (Inr u, l, s') \<Rightarrow> (Inr promise, s'))"

definition asyncExists ::
  "('k, 'g) env \<Rightarrow> string \<Rightarrow> ('k, 'g) state \<Rightarrow> Response promise result \<times> ('k, 'g) state" where
  "asyncExists env path s =
     (case injectFailureBeforeOp env Unset s of
        (True, promise, s1) \<Rightarrow>
          (Inr promise, LOG_TRACE (injected_fault_before (seed s1) ''asyncExists'' path) s1)
      | (False, promise, s1) \<Rightarrow> submit env (ImplExists path) promise s1)"

definition asyncTryGet ::
  "('k, 'g) env \<Rightarrow> string \<Rightarrow> ('k, 'g) state \<Rightarrow> Response promise result \<times> ('k, 'g) state" where
  "asyncTryGet env path s =
     (case injectFailureBeforeOp env Unset s of
        (True, promise, s1) \<Rightarrow>
          (Inr promise, LOG_TRACE (injected_fault_before (seed s1) ''asyncTryGet'' path) s1)
      | (False, promise, s1) \<Rightarrow> submit env (ImplGet path) promise s1)"

definition asyncTryRemove ::
  "('k, 'g) env \<Rightarrow> string \<Rightarrow> int \<Rightarrow> ('k, 'g) state \<Rightarrow> Response promise result \<times> ('k, 'g) state" where
  "asyncTryRemove env path version s =
     (case injectFailureBeforeOp env Unset s of
        (True, promise, s1) \<Rightarrow>
          (Inr promise, LOG_TRACE (injected_fault_before (seed s1) ''asyncTryRemove'' path) s1)
      | (False, promise, s1) \<Rightarrow> submit env (ImplRemove path version) promise s1)"

definition asyncTryRemoveNoThrow ::
  "('k, 'g) env \<Rightarrow> string \<Rightarrow> int \<Rightarrow> ('k, 'g) state \<Rightarrow> Response promise result \<times> ('k, 'g) state" where
  "asyncTryRemoveNoThrow env path version s =
     (case before_fault_NoThrow env s of
        (True, s1) \<Rightarrow>
          (Inr (Value (RemoveResponse ZSESSIONEXPIRED)),
           LOG_TRACE (injected_fault_before (seed s1) ''asyncTryRemoveNoThrow'' path) s1)
      | (False, s1) \<Rightarrow> submit env (ImplRemove path version) Unset s1)"

definition asyncTryCreateNoThrow ::
  "('k, 'g) env \<Rightarrow> string \<Rightarrow> string \<Rightarrow> CreateMode \<Rightarrow> ('k, 'g) state
     \<Rightarrow> Response promise result \<times> ('k, 'g) state" where
  "asyncTryCreateNoThrow env path data mode s =
     (case before_fault_NoThrow env s of
        (True, s1) \<Rightarrow> (Inr (Value (CreateResponse ZSESSIONEXPIRED [])), s1)
      | (False, s1) \<Rightarrow> submit env (ImplCreate path data mode) Unset s1)"

definition asyncTryMultiNoThrow ::
  "('k, 'g) env \<Rightarrow> Request list \<Rightarrow> ('k, 'g) state
     \<Rightarrow> Response list promise result \<times> ('k, 'g) state" where
  "asyncTryMultiNoThrow env ops s =
     (case before_fault_NoThrow env s of
        (True, s1) \<Rightarrow>
          (Inr (Value (error_responses ops ZSESSIONEXPIRED)),
           LOG_TRACE (injected_fault_before (seed s1) ''asyncTryMultiNoThrow'' (front_path ops)) s1)
      | (False, s1) \<Rightarrow> submit env (ImplMulti ops) Unset s1)"

section \<open>A client for concrete runs\<close>

text \<open>
  Modelled from the spec: the coordination client itself (\<^verbatim>\<open>zkutil::ZooKeeper\<close>) is an
  external collaborator and not among the sources, so the concrete runs below use a
  small stand-in: a set of node paths behind a connection that is up or down.  A batch
  is applied atomically (all or nothing); the throwing methods raise every failure,
  the \<open>try\<close> methods return the codes of their own list and raise the rest, and
  \<open>tryMultiNoThrow\<close> returns every code.  \<open>ZCONNECTIONLOSS\<close> and \<open>ZBADARGUMENTS\<close> are
  the codes \<open>-4\<close> and \<open>-8\<close> of \<^verbatim>\<open>Coordination::Error\<close>.
\<close>

abbreviation ZCONNECTIONLOSS :: Error where
  "ZCONNECTIONLOSS \<equiv> ZOTHER (- 4)"

abbreviation ZBADARGUMENTS :: Error where
  "ZBADARGUMENTS \<equiv> ZOTHER (- 8)"

record mem =
  connected :: bool
  nodes :: "string list"

fun mem_apply :: "Request \<Rightarrow> string list \<Rightarrow> Error + Response \<times> string list" where
  "mem_apply (CreateRequest path data is_ephemeral is_sequential) ns =
     (if path \<in> set ns then Inl ZNODEEXISTS else Inr (CreateResponse ZOK path, ns @ [path]))"
| "mem_apply (RemoveRequest path version) ns =
     (if path \<in> set ns then Inr (RemoveResponse ZOK, removeAll path ns) else Inl ZNONODE)"
| "mem_apply (OtherRequest path) ns =
     (if path \<in> set ns then Inr (OtherResponse ZOK, ns) else Inl ZNONODE)"

fun mem_batch :: "Request list \<Rightarrow> string list \<Rightarrow> Error + Response list \<times> string list" where
  "mem_batch [] ns = Inr ([], ns)"
| "mem_batch (r # rs) ns =
     (case mem_apply r ns of
        Inl e \<Rightarrow> Inl e
      | Inr (response, ns1) \<Rightarrow>
          (case mem_batch rs ns1 of
             Inl e \<Rightarrow> Inl e
           | Inr (responses, ns2) \<Rightarrow> Inr (response # responses, ns2)))"

definition mem_remove :: "string \<Rightarrow> int \<Rightarrow> mem \<Rightarrow> unit result \<times> mem" where
  "mem_remove path version k =
     (if \<not> connected k then (Inl (KeeperException ZCONNECTIONLOSS), k)
      else if path \<in> set (nodes k) then (Inr (), k\<lparr>nodes := removeAll path (nodes k)\<rparr>)
      else (Inl (KeeperException ZNONODE), k))"

definition mem_tryRemove :: "string \<Rightarrow> int \<Rightarrow> mem \<Rightarrow> Error result \<times> mem" where
  "mem_tryRemove path version k =
     (if \<not> connected k then (Inl (KeeperException ZCONNECTIONLOSS), k)
      else if path = [] then (Inl (KeeperException ZBADARGUMENTS), k)
      else if path \<in> set (nodes k) then (Inr ZOK, k\<lparr>nodes := removeAll path (nodes k)\<rparr>)
      else (Inr ZNONODE, k))"

definition mem_multi :: "Request list \<Rightarrow> mem \<Rightarrow> Response list result \<times> mem" where
  "mem_multi requests k =
     (if \<not> connected k then (Inl (KeeperException ZCONNECTIONLOSS), k)
      else
        (case mem_batch requests (nodes k) of
           Inl e \<Rightarrow> (Inl (KeeperException e), k)
         | Inr (responses, ns) \<Rightarrow> (Inr responses, k\<lparr>nodes := ns\<rparr>)))"

definition mem_tryMulti ::
  "Request list \<Rightarrow> Response list \<Rightarrow> mem \<Rightarrow> (Error result \<times> Response list) \<times> mem" where
  "mem_tryMulti requests responses k =
     (if \<not> connected k then ((Inl (KeeperException ZCONNECTIONLOSS), responses), k)
      else
        (case mem_batch requests (nodes k) of
           Inl e \<Rightarrow> ((Inr e, error_responses requests e), k)
         | Inr (responses1, ns) \<Rightarrow> ((Inr ZOK, responses1), k\<lparr>nodes := ns\<rparr>)))"

definition mem_tryMultiNoThrow ::
  "Request list \<Rightarrow> Response list \<Rightarrow> mem \<Rightarrow> (Error result \<times> Response list) \<times> mem" where
  "mem_tryMultiNoThrow requests responses k =
     (if \<not> connected k then ((Inr ZCONNECTIONLOSS, responses), k)
      else
        (case mem_batch requests (nodes k) of
           Inl e \<Rightarrow> ((Inr e, error_responses requests e), k)
         | Inr (responses1, ns) \<Rightarrow> ((Inr ZOK, responses1), k\<lparr>nodes := ns\<rparr>)))"

definition mem_tryCreate ::
  "string \<Rightarrow> string \<Rightarrow> CreateMode \<Rightarrow> mem \<Rightarrow> (Error result \<times> string) \<times> mem" where
  "mem_tryCreate path data mode k =
     (if \<not> connected k then ((Inl (KeeperException ZCONNECTIONLOSS), []), k)
      else if path = [] then ((Inl (KeeperException ZBADARGUMENTS), []), k)
      else if path \<in> set (nodes k) then ((Inr ZNODEEXISTS, []), k)
      else ((Inr ZOK, path), k\<lparr>nodes := nodes k @ [path]\<rparr>))"

definition mem_impl :: "call \<Rightarrow> mem \<Rightarrow> unit result \<times> mem" where
  "mem_impl c k = (Inr (), k)"

definition mem_expired :: "mem \<Rightarrow> bool result \<times> mem" where
  "mem_expired k = (Inr (\<not> connected k), k)"

definition mem_isHardwareError :: "Error \<Rightarrow> bool" where
  "mem_isHardwareError e =
     (e = ZSESSIONEXPIRED \<or> e = ZOPERATIONTIMEOUT \<or> e = ZCONNECTIONLOSS)"

definition mem_env :: "(mem, bool list) env" where
  "mem_env =
     \<lparr>isHardwareError = mem_isHardwareError, bernoulli_draw = scripted,
      randomSeed = 42, pcg64_fast = (\<lambda>seed1. [False, False]),
      k_remove = mem_remove, k_tryRemove = mem_tryRemove, k_multi = mem_multi,
      k_tryMulti = mem_tryMulti, k_tryMultiNoThrow = mem_tryMultiNoThrow,
      k_tryCreate = mem_tryCreate, k_impl = mem_impl\<rparr>"

text \<open>One client at address \<open>0\<close>, connected, holding the nodes \<open>ns\<close>; nothing called or
  logged yet.\<close>

definition mem_world :: "string list \<Rightarrow> mem world" where
  "mem_world ns =
     \<lparr>clients = (\<lambda>a. \<lparr>connected = True, nodes = ns\<rparr>), calls = [], trace = []\<rparr>"

text \<open>The same with the connection down.\<close>

definition mem_world_down :: "string list \<Rightarrow> mem world" where
  "mem_world_down ns =
     \<lparr>clients = (\<lambda>a. \<lparr>connected = False, nodes = ns\<rparr>), calls = [], trace = []\<rparr>"

text \<open>
  A proxy over the client at address \<open>0\<close> with the policy \<open>fp\<close> and a logger, as
  \<^verbatim>\<open>createInstance\<close> builds it for a positive probability.
\<close>

definition mem_proxy :: "bool list RandomFaultInjection \<Rightarrow> mem world \<Rightarrow> (mem, bool list) state" where
  "mem_proxy fp w =
     \<lparr>clients = clients w, calls = calls w, trace = trace w,
      keeper = Some 0, keeper_prev = None, fault_policy = Some fp,
      name = ''proxy'', logger = True, seed = 42, ephemeral_nodes = []\<rparr>"

text \<open>A policy with no override whose next two draws are \<open>False\<close>.\<close>

definition quiet :: "bool list RandomFaultInjection" where
  "quiet =
     \<lparr>must_fail_after_op = False, must_fail_before_op = False,
      rndgen = [False, False], distribution = 1 / 2\<rparr>"

section \<open>What a checkpoint decides\<close>

text \<open>
  Whether the checkpoint before (after) the call fires for the policy \<open>fp\<close>, and the
  policy it leaves behind: one draw taken, its own flag cleared.
\<close>

definition fires_before :: "('k, 'g) env \<Rightarrow> 'g RandomFaultInjection \<Rightarrow> bool" where
  "fires_before env fp =
     (fst (bernoulli_draw env (distribution fp) (rndgen fp)) \<or> must_fail_before_op fp)"

definition fires_after :: "('k, 'g) env \<Rightarrow> 'g RandomFaultInjection \<Rightarrow> bool" where
  "fires_after env fp =
     (fst (bernoulli_draw env (distribution fp) (rndgen fp)) \<or> must_fail_after_op fp)"

definition checked_before ::
  "('k, 'g) env \<Rightarrow> 'g RandomFaultInjection \<Rightarrow> 'g RandomFaultInjection" where
  "checked_before env fp =
     fp\<lparr>rndgen := snd (bernoulli_draw env (distribution fp) (rndgen fp)),
        must_fail_before_op := False\<rparr>"

definition checked_after ::
  "('k, 'g) env \<Rightarrow> 'g RandomFaultInjection \<Rightarrow> 'g RandomFaultInjection" where
  "checked_after env fp =
     fp\<lparr>rndgen := snd (bernoulli_draw env (distribution fp) (rndgen fp)),
        must_fail_after_op := False\<rparr>"

text \<open>How \<^verbatim>\<open>access\<close> surfaces a \<^verbatim>\<open>KeeperException\<close> with the code \<open>e\<close> when the
  result is an error code: thrown when \<open>e\<close> is a hardware error, returned otherwise,
  and always returned under \<^verbatim>\<open>no_throw_access\<close>.\<close>

definition surfaced :: "('k, 'g) env \<Rightarrow> bool \<Rightarrow> Error \<Rightarrow> Error result" where
  "surfaced env no_throw_access e =
     (if no_throw_access then Inr e
      else if isHardwareError env e then Inl (KeeperException e)
      else Inr e)"

text \<open>The calls made since the state \<open>s\<close>, read in a later state \<open>s'\<close>.\<close>

definition calls_since :: "('k, 'g) state \<Rightarrow> ('k, 'g) state \<Rightarrow> (nat \<times> call) list" where
  "calls_since s s' = drop (length (calls s)) (calls s')"

text \<open>The deletes of \<^verbatim>\<open>cleanupEphemeralNodes\<close> run one after the other on a client:
  what each \<^verbatim>\<open>tryRemove\<close> returned or threw, and the client at the end.\<close>

fun removals :: "('k, 'g) env \<Rightarrow> string list \<Rightarrow> 'k \<Rightarrow> Error result list \<times> 'k" where
  "removals env [] k = ([], k)"
| "removals env (path # rest) k =
     (case k_tryRemove env path (- 1) k of
        (r, k1) \<Rightarrow> (case removals env rest k1 of (rs, k2) \<Rightarrow> (r # rs, k2)))"

text \<open>The state in which the operation of \<^verbatim>\<open>access\<close> starts: the policy, when there is
  one and the checkpoint before the call is compiled in, has taken its draw.\<close>

definition entered :: "('k, 'g) env \<Rightarrow> bool \<Rightarrow> ('k, 'g) state \<Rightarrow> ('k, 'g) state" where
  "entered env inject_failure_before_op s =
     (case fault_policy s of
        None \<Rightarrow> s
      | Some fp \<Rightarrow>
          if inject_failure_before_op then s\<lparr>fault_policy := Some (checked_before env fp)\<rparr> else s)"

text \<open>The checkpoint before the call lets the call through.\<close>

definition passes_before :: "('k, 'g) env \<Rightarrow> bool \<Rightarrow> ('k, 'g) state \<Rightarrow> bool" where
  "passes_before env inject_failure_before_op s =
     (case fault_policy s of
        None \<Rightarrow> True
      | Some fp \<Rightarrow> \<not> (inject_failure_before_op \<and> fires_before env fp))"

text \<open>A batch that creates the ephemeral node \<open>/a\<close>, removes it again and creates the
  ephemeral node \<open>/b\<close>.\<close>

definition create_remove_create :: "Request list" where
  "create_remove_create =
     [CreateRequest ''/a'' [] True False, RemoveRequest ''/a'' (- 1),
      CreateRequest ''/b'' [] True False]"

text \<open>
  Between the states \<open>s\<close> and \<open>s'\<close> the real client at \<open>a\<close> has received exactly the
  call \<open>c\<close> and has become \<open>k\<close>; nothing was logged, nothing tracked, and the policy and
  the client reference are as they were.  (\<^verbatim>\<open>keeper_prev\<close> is left open: the handler of
  \<^verbatim>\<open>access\<close> sets it when the call throws a \<^verbatim>\<open>KeeperException\<close>.)
\<close>

definition forwarded ::
  "('k, 'g) state \<Rightarrow> nat \<Rightarrow> call \<Rightarrow> 'k \<Rightarrow> ('k, 'g) state \<Rightarrow> bool" where
  "forwarded s a c k s' =
     (calls s' = calls s @ [(a, c)] \<and> clients s' = (clients s)(a := k)
      \<and> trace s' = trace s \<and> ephemeral_nodes s' = ephemeral_nodes s
      \<and> fault_policy s' = fault_policy s \<and> keeper s' = keeper s)"

text \<open>
  The outcomes of a call on the real client other than a \<^verbatim>\<open>KeeperException\<close>
  (\<open>not_KeeperException\<close>), and other than a \<^verbatim>\<open>KeeperException\<close> whose code is not a
  hardware error (\<open>not_user_KeeperException\<close>).
\<close>

definition not_KeeperException :: "'r result \<Rightarrow> bool" where
  "not_KeeperException r = (case r of Inl (KeeperException e) \<Rightarrow> False | _ \<Rightarrow> True)"

definition not_user_KeeperException :: "('k, 'g) env \<Rightarrow> 'r result \<Rightarrow> bool" where
  "not_user_KeeperException env r =
     (case r of Inl (KeeperException e) \<Rightarrow> isHardwareError env e | _ \<Rightarrow> True)"

text \<open>
  For the scan of a batch: every ephemeral create request has a \<^verbatim>\<open>CreateResponse\<close> at
  its index (\<open>create_responses_ok\<close>), and the paths of these responses in the order of
  the batch (\<open>created_paths\<close>).
\<close>

fun create_responses_ok :: "(nat \<times> Request) list \<Rightarrow> Response list \<Rightarrow> bool" where
  "create_responses_ok [] responses = True"
| "create_responses_ok ((i, req) # rest) responses =
     (i < length responses
      \<and> (case responses ! i of CreateResponse e path_created \<Rightarrow> True | _ \<Rightarrow> False)
      \<and> create_responses_ok rest responses)"

fun created_paths :: "(nat \<times> Request) list \<Rightarrow> Response list \<Rightarrow> string list" where
  "created_paths [] responses = []"
| "created_paths ((i, req) # rest) responses =
     (case responses ! i of
        CreateResponse e path_created \<Rightarrow> path_created # created_paths rest responses
      | _ \<Rightarrow> created_paths rest responses)"

text \<open>The throwing \<^verbatim>\<open>remove\<close> of the real client run on a list of paths: whether
  every call returns, and the client at the end.\<close>

fun removes_succeed :: "('k, 'g) env \<Rightarrow> string list \<Rightarrow> 'k \<Rightarrow> bool" where
  "removes_succeed env [] k = True"
| "removes_succeed env (path # rest) k =
     (case k_remove env path (- 1) k of
        (Inl x, k1) \<Rightarrow> False
      | (Inr u, k1) \<Rightarrow> removes_succeed env rest k1)"

fun after_removes :: "('k, 'g) env \<Rightarrow> string list \<Rightarrow> 'k \<Rightarrow> 'k" where
  "after_removes env [] k = k"
| "after_removes env (path # rest) k = after_removes env rest (snd (k_remove env path (- 1) k))"

section \<open>Lemmas on the checkpoints\<close>

lemma beforeOperation_eq:
  "beforeOperation (bernoulli_draw env) fp =
     (if fires_before env fp then Inl (KeeperException ZSESSIONEXPIRED) else Inr (),
      checked_before env fp)"
  by (auto simp: beforeOperation_def fires_before_def checked_before_def Let_def
      split: prod.splits)

lemma beforeOperationNoThrow_eq:
  "beforeOperationNoThrow (bernoulli_draw env) fp = (fires_before env fp, checked_before env fp)"
  by (auto simp: beforeOperationNoThrow_def fires_before_def checked_before_def Let_def
      split: prod.splits)

lemma afterOperation_eq:
  "afterOperation (bernoulli_draw env) fp =
     (if fires_after env fp then Inl (KeeperException ZOPERATIONTIMEOUT) else Inr (),
      checked_after env fp)"
  by (auto simp: afterOperation_def fires_after_def checked_after_def Let_def
      split: prod.splits)

lemma afterOperationNoThrow_eq:
  "afterOperationNoThrow (bernoulli_draw env) fp = (fires_after env fp, checked_after env fp)"
  by (auto simp: afterOperationNoThrow_def fires_after_def checked_after_def Let_def
      split: prod.splits)

lemma faultInjectionBefore_eq:
  "faultInjectionBefore env fault_cleanup (l, s) =
     (case fault_policy s of
        None \<Rightarrow> (Inr (), l, s)
      | Some fp \<Rightarrow>
          if fires_before env fp
          then (Inl (KeeperException ZSESSIONEXPIRED), fault_cleanup l,
                s\<lparr>fault_policy := Some (checked_before env fp)\<rparr>)
          else (Inr (), l, s\<lparr>fault_policy := Some (checked_before env fp)\<rparr>))"
  by (simp add: faultInjectionBefore_def beforeOperation_eq split: option.splits)

lemma faultInjectionAfter_eq:
  "faultInjectionAfter env fault_cleanup (l, s) =
     (case fault_policy s of
        None \<Rightarrow> (Inr (), l, s)
      | Some fp \<Rightarrow>
          if fires_after env fp
          then (case fault_cleanup (l, s\<lparr>fault_policy := Some (checked_after env fp)\<rparr>) of
                  (Inl y, \<sigma>) \<Rightarrow> (Inl y, \<sigma>)
                | (Inr u, \<sigma>) \<Rightarrow> (Inl (KeeperException ZOPERATIONTIMEOUT), \<sigma>))
          else (Inr (), l, s\<lparr>fault_policy := Some (checked_after env fp)\<rparr>))"
  by (simp add: faultInjectionAfter_def afterOperation_eq split: option.splits)

lemma access_try_null:
  "keeper s = None \<Longrightarrow>
   access_try env ib ia ce operation ac bc (l, s) = (Inl (KeeperException ZSESSIONEXPIRED), l, s)"
  by (simp add: access_try_def)

lemma access_try_before_fires:
  "keeper s = Some a \<Longrightarrow> fault_policy s = Some fp \<Longrightarrow> fires_before env fp \<Longrightarrow>
   access_try env True ia ce operation ac bc (l, s) =
     (Inl (KeeperException ZSESSIONEXPIRED),
      (case bc of None \<Rightarrow> l | Some cleanup \<Rightarrow> cleanup l),
      s\<lparr>fault_policy := Some (checked_before env fp)\<rparr>)"
  by (simp add: access_try_def faultInjectionBefore_eq split: option.splits)

lemma access_try_enters:
  "keeper s = Some a \<Longrightarrow> passes_before env ib s \<Longrightarrow>
   access_try env ib ia ce operation ac bc (l, s) =
     (case operation (l, entered env ib s) of
        (Inl x, \<sigma>2) \<Rightarrow> (Inl x, \<sigma>2)
      | (Inr res, \<sigma>2) \<Rightarrow>
          if ce res then (Inr res, \<sigma>2)
          else if ia
          then (case faultInjectionAfter env
                       (case ac of None \<Rightarrow> (\<lambda>\<sigma>. (Inr (), \<sigma>)) | Some cleanup \<Rightarrow> cleanup res) \<sigma>2 of
                  (Inl x, \<sigma>3) \<Rightarrow> (Inl x, \<sigma>3)
                | (Inr u, \<sigma>3) \<Rightarrow> (Inr res, \<sigma>3))
          else (Inr res, \<sigma>2))"
  by (auto simp: access_try_def faultInjectionBefore_eq entered_def passes_before_def
      split: option.splits)


lemma access_caught_frame [simp]:
  "calls (access_caught f p e s) = calls s"
  "clients (access_caught f p e s) = clients s"
  "ephemeral_nodes (access_caught f p e s) = ephemeral_nodes s"
  "fault_policy (access_caught f p e s) = fault_policy s"
  "keeper (access_caught f p e s) = keeper s"
  by (simp_all add: access_caught_def LOG_TRACE_def Let_def)

lemma LOG_TRACE_frame [simp]:
  "calls (LOG_TRACE line s) = calls s"
  "clients (LOG_TRACE line s) = clients s"
  "ephemeral_nodes (LOG_TRACE line s) = ephemeral_nodes s"
  "fault_policy (LOG_TRACE line s) = fault_policy s"
  "keeper (LOG_TRACE line s) = keeper s"
  "keeper_prev (LOG_TRACE line s) = keeper_prev s"
  "logger (LOG_TRACE line s) = logger s"
  "seed (LOG_TRACE line s) = seed s"
  by (simp_all add: LOG_TRACE_def)

lemma entered_frame [simp]:
  "calls (entered env ib s) = calls s"
  "clients (entered env ib s) = clients s"
  "ephemeral_nodes (entered env ib s) = ephemeral_nodes s"
  "keeper (entered env ib s) = keeper s"
  "keeper_prev (entered env ib s) = keeper_prev s"
  "trace (entered env ib s) = trace s"
  "logger (entered env ib s) = logger s"
  "seed (entered env ib s) = seed s"
  by (simp_all add: entered_def split: option.splits)

lemma entered_no_policy [simp]: "fault_policy s = None \<Longrightarrow> entered env ib s = s"
  by (simp add: entered_def)

lemma passes_no_policy [simp]: "fault_policy s = None \<Longrightarrow> passes_before env ib s"
  by (simp add: passes_before_def)

lemma passes_not_compiled [simp]: "passes_before env False s"
  by (simp add: passes_before_def split: option.splits)

lemma entered_not_compiled [simp]: "entered env False s = s"
  by (simp add: entered_def split: option.splits)


text \<open>The handler of \<^verbatim>\<open>access\<close> for an error-code result, applied to what the
  \<^verbatim>\<open>try\<close> block gave.\<close>

lemma access_Error_handler:
  "access_Error env nt ib ia f p operation ac bc \<sigma> =
     (case access_try env ib ia (isHardwareError env) operation ac bc \<sigma> of
        (Inr res, l, s) \<Rightarrow> (Inr res, l, s)
      | (Inl (KeeperException e), l, s) \<Rightarrow> (surfaced env nt e, l, access_caught f p e s)
      | (Inl x, l, s) \<Rightarrow> (Inl x, l, s))"
  by (simp add: access_Error_def surfaced_def split: prod.splits sum.splits exn.splits)

lemma access_Error_null:
  "keeper s = None \<Longrightarrow>
   access_Error env nt ib ia f p operation ac bc (l, s) =
     (surfaced env nt ZSESSIONEXPIRED, l, access_caught f p ZSESSIONEXPIRED s)"
  by (simp add: access_Error_handler access_try_null)

lemma access_Error_before_fires:
  "keeper s = Some a \<Longrightarrow> fault_policy s = Some fp \<Longrightarrow> fires_before env fp \<Longrightarrow>
   access_Error env nt True ia f p operation ac bc (l, s) =
     (surfaced env nt ZSESSIONEXPIRED,
      (case bc of None \<Rightarrow> l | Some cleanup \<Rightarrow> cleanup l),
      access_caught f p ZSESSIONEXPIRED (s\<lparr>fault_policy := Some (checked_before env fp)\<rparr>))"
  by (simp add: access_Error_handler access_try_before_fires)



text \<open>The operation returned a hardware error code.\<close>

lemma access_Error_hardware:
  "keeper s = Some a \<Longrightarrow> passes_before env ib s \<Longrightarrow>
   operation (l, entered env ib s) = (Inr res, \<sigma>2) \<Longrightarrow> isHardwareError env res \<Longrightarrow>
   access_Error env nt ib ia f p operation ac bc (l, s) = (Inr res, \<sigma>2)"
  by (cases \<sigma>2) (simp add: access_Error_handler access_try_enters)

text \<open>The operation threw.\<close>

lemma access_Error_throws:
  "keeper s = Some a \<Longrightarrow> passes_before env ib s \<Longrightarrow>
   operation (l, entered env ib s) = (Inl x, l2, s2) \<Longrightarrow>
   access_Error env nt ib ia f p operation ac bc (l, s) =
     (case x of
        KeeperException e \<Rightarrow> (surfaced env nt e, l2, access_caught f p e s2)
      | _ \<Rightarrow> (Inl x, l2, s2))"
  by (simp add: access_Error_handler access_try_enters split: exn.splits)

lemma access_throws:
  "keeper s = Some a \<Longrightarrow> passes_before env ib s \<Longrightarrow>
   operation (l, entered env ib s) = (Inl x, l2, s2) \<Longrightarrow>
   access env ib ia f p operation ac bc (l, s) =
     (case x of
        KeeperException e \<Rightarrow> (Inl x, l2, access_caught f p e s2)
      | _ \<Rightarrow> (Inl x, l2, s2))"
  by (simp add: access_def access_try_enters split: exn.splits)

text \<open>The operation returned and no checkpoint follows: there is no policy.\<close>

lemma access_Error_returns_no_policy:
  "keeper s = Some a \<Longrightarrow> passes_before env ib s \<Longrightarrow>
   operation (l, entered env ib s) = (Inr res, l2, s2) \<Longrightarrow> fault_policy s2 = None \<Longrightarrow>
   access_Error env nt ib ia f p operation ac bc (l, s) = (Inr res, l2, s2)"
  by (simp add: access_Error_handler access_try_enters faultInjectionAfter_eq)

lemma access_returns_no_policy:
  "keeper s = Some a \<Longrightarrow> passes_before env ib s \<Longrightarrow>
   operation (l, entered env ib s) = (Inr res, l2, s2) \<Longrightarrow> fault_policy s2 = None \<Longrightarrow>
   access env ib ia f p operation ac bc (l, s) = (Inr res, l2, s2)"
  by (simp add: access_def access_try_enters faultInjectionAfter_eq)

text \<open>The operation returned and the checkpoint after the call does not fire.\<close>

lemma access_Error_returns_quiet:
  "keeper s = Some a \<Longrightarrow> passes_before env ib s \<Longrightarrow>
   operation (l, entered env ib s) = (Inr res, l2, s2) \<Longrightarrow> \<not> isHardwareError env res \<Longrightarrow>
   fault_policy s2 = Some fp2 \<Longrightarrow> \<not> fires_after env fp2 \<Longrightarrow>
   access_Error env nt ib True f p operation ac bc (l, s) =
     (Inr res, l2, s2\<lparr>fault_policy := Some (checked_after env fp2)\<rparr>)"
  by (simp add: access_Error_handler access_try_enters faultInjectionAfter_eq)

lemma access_returns_quiet:
  "keeper s = Some a \<Longrightarrow> passes_before env ib s \<Longrightarrow>
   operation (l, entered env ib s) = (Inr res, l2, s2) \<Longrightarrow>
   fault_policy s2 = Some fp2 \<Longrightarrow> \<not> fires_after env fp2 \<Longrightarrow>
   access env ib True f p operation ac bc (l, s) =
     (Inr res, l2, s2\<lparr>fault_policy := Some (checked_after env fp2)\<rparr>)"
  by (simp add: access_def access_try_enters faultInjectionAfter_eq)

text \<open>The operation returned and the checkpoint after the call fires: the cleanup
  runs on the state with the draw taken, and what it throws takes the place of the
  injected exception.\<close>

lemma access_Error_after_fires:
  "keeper s = Some a \<Longrightarrow> passes_before env ib s \<Longrightarrow>
   operation (l, entered env ib s) = (Inr res, l2, s2) \<Longrightarrow> \<not> isHardwareError env res \<Longrightarrow>
   fault_policy s2 = Some fp2 \<Longrightarrow> fires_after env fp2 \<Longrightarrow>
   (case ac of None \<Rightarrow> (\<lambda>\<sigma>. (Inr (), \<sigma>)) | Some cleanup \<Rightarrow> cleanup res)
      (l2, s2\<lparr>fault_policy := Some (checked_after env fp2)\<rparr>) = (c, l3, s3) \<Longrightarrow>
   access_Error env nt ib True f p operation ac bc (l, s) =
     (case c of
        Inr u \<Rightarrow> (surfaced env nt ZOPERATIONTIMEOUT, l3, access_caught f p ZOPERATIONTIMEOUT s3)
      | Inl (KeeperException e) \<Rightarrow> (surfaced env nt e, l3, access_caught f p e s3)
      | Inl y \<Rightarrow> (Inl y, l3, s3))"
  by (simp add: access_Error_handler access_try_enters faultInjectionAfter_eq
      split: sum.splits exn.splits)

lemma access_after_fires:
  "keeper s = Some a \<Longrightarrow> passes_before env ib s \<Longrightarrow>
   operation (l, entered env ib s) = (Inr res, l2, s2) \<Longrightarrow>
   fault_policy s2 = Some fp2 \<Longrightarrow> fires_after env fp2 \<Longrightarrow>
   (case ac of None \<Rightarrow> (\<lambda>\<sigma>. (Inr (), \<sigma>)) | Some cleanup \<Rightarrow> cleanup res)
      (l2, s2\<lparr>fault_policy := Some (checked_after env fp2)\<rparr>) = (c, l3, s3) \<Longrightarrow>
   access env ib True f p operation ac bc (l, s) =
     (case c of
        Inr u \<Rightarrow> (Inl (KeeperException ZOPERATIONTIMEOUT), l3,
                  access_caught f p ZOPERATIONTIMEOUT s3)
      | Inl (KeeperException e) \<Rightarrow> (Inl (KeeperException e), l3, access_caught f p e s3)
      | Inl y \<Rightarrow> (Inl y, l3, s3))"
  by (simp add: access_def access_try_enters faultInjectionAfter_eq
      split: sum.splits exn.splits)

text \<open>A call through \<^verbatim>\<open>keeper\<close> when it is set.\<close>

lemma keeper_call_set:
  "keeper s = Some a \<Longrightarrow>
   keeper_call c m (l, s) =
     (fst (m (clients s a)), l,
      s\<lparr>clients := (clients s)(a := snd (m (clients s a))), calls := calls s @ [(a, c)]\<rparr>)"
  by (simp add: keeper_call_def call_client_def split: prod.splits)

lemma keeper_call_out_set:
  "keeper s = Some a \<Longrightarrow>
   keeper_call_out c m (l, s) =
     (fst (fst (m l (clients s a))), snd (fst (m l (clients s a))),
      s\<lparr>clients := (clients s)(a := snd (m l (clients s a))), calls := calls s @ [(a, c)]\<rparr>)"
  by (simp add: keeper_call_out_def call_client_def split: prod.splits)

section \<open>Concrete runs\<close>

lemmas mem_defs = mem_env_def mem_world_def mem_world_down_def mem_proxy_def quiet_def
  forced_before_def forced_after_def mem_remove_def mem_tryRemove_def mem_multi_def
  mem_tryMulti_def mem_tryMultiNoThrow_def mem_tryCreate_def mem_impl_def mem_expired_def
  mem_isHardwareError_def

lemmas run_defs = multi_def tryMulti_def tryMultiNoThrow_def tryCreate_def tryRemove_def
  forward_def forward_Error_def access_def access_Error_def access_try_def access_caught_def
  faultInjectionBefore_def faultInjectionAfter_def beforeOperation_def afterOperation_def
  beforeOperationNoThrow_def afterOperationNoThrow_def keeper_call_def keeper_call_out_def
  call_client_def LOG_TRACE_def doForEachCreatedEphemeralNode_def faultInjectionPostAction_def
  remove_created_def push_back_created_def collect_after_tryMulti_def front_path_def
  error_responses_def tryCreate_cleanup_def collect_after_tryCreate_def is_ephemeral_mode_def cleanupEphemeralNodes_def
  cleanup_one_def createInstance_def

lemmas async_defs = asyncExists_def asyncTryGet_def asyncTryRemove_def asyncTryRemoveNoThrow_def
  asyncTryCreateNoThrow_def asyncTryMultiNoThrow_def injectFailureBeforeOp_def
  before_fault_NoThrow_def submit_def

section \<open>The fault policy: draws and overrides\<close>

text \<open>
  C7, as stated, at a concrete input: \<^verbatim>\<open>must_fail_before_op\<close> is set and the next draw
  is \<open>False\<close>.  The claim says that the override is consumed instead of a draw, so
  that the generator stays where it was.  The decision fires, and the generator has
  moved on by one draw.
\<close>

theorem C7_override_still_draws:
  "fst (beforeOperationNoThrow scripted forced_before) = True
   \<and> rndgen (snd (beforeOperationNoThrow scripted forced_before)) \<noteq> rndgen forced_before"
  by (simp add: beforeOperationNoThrow_def forced_before_def)

text \<open>
  C7, amended: each of the four decisions takes exactly one draw from the generator,
  whether or not its override flag is set; it fires when the draw is true or the flag
  is set; afterwards its flag is clear, and the other flag is as it was.
\<close>

theorem C7_one_draw_per_decision:
  "beforeOperation draw fp =
     (if fst (draw (distribution fp) (rndgen fp)) \<or> must_fail_before_op fp
      then Inl (KeeperException ZSESSIONEXPIRED) else Inr (),
      fp\<lparr>rndgen := snd (draw (distribution fp) (rndgen fp)), must_fail_before_op := False\<rparr>)
   \<and> beforeOperationNoThrow draw fp =
     (fst (draw (distribution fp) (rndgen fp)) \<or> must_fail_before_op fp,
      fp\<lparr>rndgen := snd (draw (distribution fp) (rndgen fp)), must_fail_before_op := False\<rparr>)
   \<and> afterOperation draw fp =
     (if fst (draw (distribution fp) (rndgen fp)) \<or> must_fail_after_op fp
      then Inl (KeeperException ZOPERATIONTIMEOUT) else Inr (),
      fp\<lparr>rndgen := snd (draw (distribution fp) (rndgen fp)), must_fail_after_op := False\<rparr>)
   \<and> afterOperationNoThrow draw fp =
     (fst (draw (distribution fp) (rndgen fp)) \<or> must_fail_after_op fp,
      fp\<lparr>rndgen := snd (draw (distribution fp) (rndgen fp)), must_fail_after_op := False\<rparr>)"
  unfolding beforeOperation_def beforeOperationNoThrow_def
    afterOperation_def afterOperationNoThrow_def
  by (auto simp: Let_def split: prod.splits)

theorem C7_one_draw_per_decision_witness:
  "beforeOperationNoThrow scripted forced_before =
     (True, forced_before\<lparr>rndgen := [False], must_fail_before_op := False\<rparr>)
   \<and> afterOperationNoThrow scripted forced_before =
     (False, forced_before\<lparr>rndgen := [False], must_fail_after_op := False\<rparr>)"
  using C7_one_draw_per_decision [of scripted forced_before]
  by (simp add: forced_before_def)

section \<open>C4: a response count that differs from the request count\<close>

text \<open>
  C4, as stated, at a concrete input: one ephemeral create request and no response at
  all.  The counts differ, and the scan returns without an error and without running
  its action: \<^verbatim>\<open>if (responses.empty()) return;\<close> comes before the comparison of the
  sizes.
\<close>

theorem C4_no_error_on_empty_responses:
  "length ([] :: Response list) \<noteq> length [CreateRequest ''/a'' [] True False]
   \<and> doForEachCreatedEphemeralNode ''multi'' [CreateRequest ''/a'' [] True False] []
        push_back_created (mem_proxy quiet (mem_world []))
      = (Inr (), mem_proxy quiet (mem_world []))"
  by (simp add: doForEachCreatedEphemeralNode_def)

text \<open>
  C4, amended: when the response sequence is not empty and its length differs from the
  number of requests, the scan raises \<^verbatim>\<open>LOGICAL_ERROR\<close> before any action runs (the
  state is as it was).  An empty response sequence is skipped: no action, no error.
\<close>

theorem C4_size_mismatch_raises:
  assumes "length responses \<noteq> length requests"
  shows "doForEachCreatedEphemeralNode method requests responses action \<sigma> =
           (if responses = [] then (Inr (), \<sigma>) else (Inl (Exception LOGICAL_ERROR), \<sigma>))"
  using assms by (simp add: doForEachCreatedEphemeralNode_def)

theorem C4_size_mismatch_raises_witness:
  "length [CreateResponse ZOK ''/a''] \<noteq> length [CreateRequest ''/a'' [] True False, OtherRequest ''/b'']
   \<and> doForEachCreatedEphemeralNode ''multi''
        [CreateRequest ''/a'' [] True False, OtherRequest ''/b''] [CreateResponse ZOK ''/a'']
        push_back_created (mem_proxy quiet (mem_world []))
      = (Inl (Exception LOGICAL_ERROR), mem_proxy quiet (mem_world []))"
  using C4_size_mismatch_raises
    [of "[CreateResponse ZOK ''/a'']" "[CreateRequest ''/a'' [] True False, OtherRequest ''/b'']"
        "''multi''" push_back_created "mem_proxy quiet (mem_world [])"]
  by simp

section \<open>C9: flushing the tracked ephemeral nodes\<close>

lemma cleanup_loop_no_prev:
  "keeper_prev s = None \<Longrightarrow> cleanup_loop env paths s = s"
  by (induction paths arbitrary: s) (simp_all add: cleanup_one_def)

lemma cleanup_one_prev:
  "keeper_prev s = Some a \<Longrightarrow>
   cleanup_one env path s =
     s\<lparr>clients := (clients s)(a := snd (k_tryRemove env path (- 1) (clients s a))),
       calls := calls s @ [(a, TryRemove path (- 1))],
       trace := trace s @
         (if logger s \<and> isl (fst (k_tryRemove env path (- 1) (clients s a)))
          then [cleanup_exception] else [])\<rparr>"
  by (cases "k_tryRemove env path (- 1) (clients s a)")
    (auto simp: cleanup_one_def call_client_def LOG_TRACE_def split: sum.splits)

lemma cleanup_loop_prev:
  "keeper_prev s = Some a \<Longrightarrow>
   cleanup_loop env paths s =
     s\<lparr>clients := (clients s)(a := snd (removals env paths (clients s a))),
       calls := calls s @ map (\<lambda>path. (a, TryRemove path (- 1))) paths,
       trace := trace s @
         (if logger s
          then replicate (length (filter isl (fst (removals env paths (clients s a)))))
                 cleanup_exception
          else [])\<rparr>"
proof (induction paths arbitrary: s)
  case Nil
  then show ?case by simp
next
  case (Cons path rest)
  let ?s1 = "cleanup_one env path s"
  have prev: "keeper_prev ?s1 = Some a"
    using Cons.prems by (simp add: cleanup_one_prev)
  have "cleanup_loop env (path # rest) s = cleanup_loop env rest ?s1"
    by simp
  also have "\<dots> =
     ?s1\<lparr>clients := (clients ?s1)(a := snd (removals env rest (clients ?s1 a))),
       calls := calls ?s1 @ map (\<lambda>path. (a, TryRemove path (- 1))) rest,
       trace := trace ?s1 @
         (if logger ?s1
          then replicate (length (filter isl (fst (removals env rest (clients ?s1 a)))))
                 cleanup_exception
          else [])\<rparr>"
    by (rule Cons.IH [OF prev])
  also have "\<dots> =
     s\<lparr>clients := (clients s)(a := snd (removals env (path # rest) (clients s a))),
       calls := calls s @ map (\<lambda>path. (a, TryRemove path (- 1))) (path # rest),
       trace := trace s @
         (if logger s
          then replicate (length (filter isl (fst (removals env (path # rest) (clients s a)))))
                 cleanup_exception
          else [])\<rparr>"
    using Cons.prems
    by (simp add: cleanup_one_prev replicate_app_Cons_same split: prod.splits)
  finally show ?case .
qed

text \<open>
  C9, as stated, at a concrete input: one tracked path, and no call has failed yet, so
  \<^verbatim>\<open>keeper_prev\<close> is null.  The flush issues no delete at all: the real client has
  received no call and still holds the node.
\<close>

theorem C9_no_delete_without_previous_client:
  "calls (cleanupEphemeralNodes mem_env
            ((mem_proxy quiet (mem_world [''/a'']))\<lparr>ephemeral_nodes := [''/a'']\<rparr>)) = []
   \<and> nodes (clients (cleanupEphemeralNodes mem_env
            ((mem_proxy quiet (mem_world [''/a'']))\<lparr>ephemeral_nodes := [''/a'']\<rparr>)) 0) = [''/a'']"
  by (simp add: run_defs mem_defs)

text \<open>
  C9, amended: when \<^verbatim>\<open>keeper_prev\<close> is set, the flush calls \<^verbatim>\<open>tryRemove\<close> on that
  client once for each tracked path, in order; a delete that throws is swallowed, and
  logged when a logger is set; a delete that returns an error code is swallowed and not
  logged.  When \<^verbatim>\<open>keeper_prev\<close> is null no delete is issued.  In both cases the call
  does not fail and the tracked sequence is empty afterwards.
\<close>

theorem C9_flush:
  "cleanupEphemeralNodes env s =
     (case keeper_prev s of
        None \<Rightarrow> s\<lparr>ephemeral_nodes := []\<rparr>
      | Some a \<Rightarrow>
          s\<lparr>clients := (clients s)(a := snd (removals env (ephemeral_nodes s) (clients s a))),
            calls := calls s @ map (\<lambda>path. (a, TryRemove path (- 1))) (ephemeral_nodes s),
            trace := trace s @
              (if logger s
               then replicate
                      (length (filter isl (fst (removals env (ephemeral_nodes s) (clients s a)))))
                      cleanup_exception
               else []),
            ephemeral_nodes := []\<rparr>)"
  by (simp add: cleanupEphemeralNodes_def cleanup_loop_no_prev cleanup_loop_prev
      split: option.splits)

text \<open>A run: two tracked paths, the first an invalid (empty) path on which
  \<^verbatim>\<open>tryRemove\<close> throws, the second an existing node.\<close>

theorem C9_flush_witness:
  "calls (cleanupEphemeralNodes mem_env
            ((mem_proxy quiet (mem_world [''/a'']))
               \<lparr>keeper_prev := Some 0, ephemeral_nodes := [[], ''/a'']\<rparr>))
     = [(0, TryRemove [] (- 1)), (0, TryRemove ''/a'' (- 1))]
   \<and> trace (cleanupEphemeralNodes mem_env
            ((mem_proxy quiet (mem_world [''/a'']))
               \<lparr>keeper_prev := Some 0, ephemeral_nodes := [[], ''/a'']\<rparr>))
     = [cleanup_exception]
   \<and> ephemeral_nodes (cleanupEphemeralNodes mem_env
            ((mem_proxy quiet (mem_world [''/a'']))
               \<lparr>keeper_prev := Some 0, ephemeral_nodes := [[], ''/a'']\<rparr>))
     = []"
  using C9_flush [of mem_env "(mem_proxy quiet (mem_world [''/a'']))
               \<lparr>keeper_prev := Some 0, ephemeral_nodes := [[], ''/a'']\<rparr>"]
  by (simp add: mem_defs)

section \<open>C1: the compensating deletes of multi\<close>

text \<open>
  The batch has committed on the real client, which has become \<open>k\<close>, and the checkpoint
  after the call fires.  When every response of an ephemeral create is a
  \<^verbatim>\<open>CreateResponse\<close> and every compensating \<^verbatim>\<open>remove\<close> returns, \<^verbatim>\<open>multi\<close> throws
  \<^verbatim>\<open>ZOPERATIONTIMEOUT\<close> after one \<^verbatim>\<open>remove\<close> for each created path, in the order of the
  batch.
\<close>

lemma for_each_removes:
  assumes "keeper s = Some a" and "create_responses_ok crs responses"
    and "removes_succeed env (created_paths crs responses) (clients s a)"
  shows "for_each_create_request crs responses (remove_created env) (l, s) =
     (Inr (), l,
      s\<lparr>clients := (clients s)(a := after_removes env (created_paths crs responses) (clients s a)),
        calls := calls s @ map (\<lambda>path. (a, Remove path (- 1))) (created_paths crs responses)\<rparr>)"
  using assms
proof (induction crs arbitrary: s)
  case Nil
  then show ?case by simp
next
  case (Cons cr crs)
  obtain i req where cr: "cr = (i, req)"
    by (cases cr)
  from Cons.prems(2) cr obtain e path_created where
    i: "i < length responses" and r: "responses ! i = CreateResponse e path_created"
    and ok: "create_responses_ok crs responses"
    by (auto split: Response.splits)
  obtain k1 where k1: "k_remove env path_created (- 1) (clients s a) = (Inr (), k1)"
    and rest: "removes_succeed env (created_paths crs responses) k1"
    using Cons.prems(3) cr r by (auto split: prod.splits sum.splits)
  let ?s1 = "s\<lparr>clients := (clients s)(a := k1),
               calls := calls s @ [(a, Remove path_created (- 1))]\<rparr>"
  have step: "remove_created env path_created (l, s) = (Inr (), l, ?s1)"
    using Cons.prems(1) k1 by (simp add: remove_created_def keeper_call_set)
  have K1: "keeper ?s1 = Some a"
    using Cons.prems(1) by simp
  have R1: "removes_succeed env (created_paths crs responses) (clients ?s1 a)"
    using rest by simp
  have "for_each_create_request (cr # crs) responses (remove_created env) (l, s) =
        for_each_create_request crs responses (remove_created env) (l, ?s1)"
    using cr i r step by simp
  also have "\<dots> =
     (Inr (), l,
      ?s1\<lparr>clients := (clients ?s1)(a := after_removes env (created_paths crs responses) (clients ?s1 a)),
        calls := calls ?s1 @ map (\<lambda>path. (a, Remove path (- 1))) (created_paths crs responses)\<rparr>)"
    by (rule Cons.IH [OF K1 ok R1])
  also have "\<dots> =
     (Inr (), l,
      s\<lparr>clients := (clients s)(a := after_removes env (created_paths (cr # crs) responses) (clients s a)),
        calls := calls s @ map (\<lambda>path. (a, Remove path (- 1))) (created_paths (cr # crs) responses)\<rparr>)"
    using cr r k1 by simp
  finally show ?case .
qed

lemma multi_cleanup_succeeds:
  assumes K: "keeper s = Some a" and P: "fault_policy s = Some fp"
    and B: "\<not> fires_before env fp"
    and M: "k_multi env requests (clients s a) = (Inr responses, k)"
    and A: "fires_after env (checked_before env fp)"
    and wf: "length responses = length requests"
      "create_responses_ok (create_requests 0 requests) responses"
    and R: "removes_succeed env (created_paths (create_requests 0 requests) responses) k"
  shows "multi env requests s =
     (Inl (KeeperException ZOPERATIONTIMEOUT),
      access_caught ''multi'' (front_path requests) ZOPERATIONTIMEOUT
        (s\<lparr>clients := (clients s)
               (a := after_removes env (created_paths (create_requests 0 requests) responses) k),
           calls := calls s @ (a, Multi requests) #
             map (\<lambda>path. (a, Remove path (- 1)))
               (created_paths (create_requests 0 requests) responses),
           fault_policy := Some (checked_after env (checked_before env fp))\<rparr>))"
proof -
  let ?paths = "created_paths (create_requests 0 requests) responses"
  let ?so = "(entered env True s)\<lparr>clients := (clients s)(a := k),
                                calls := calls s @ [(a, Multi requests)]\<rparr>"
  let ?s2 = "?so\<lparr>fault_policy := Some (checked_after env (checked_before env fp))\<rparr>"
  let ?s3 = "?s2\<lparr>clients := (clients ?s2)(a := after_removes env ?paths (clients ?s2 a)),
                 calls := calls ?s2 @ map (\<lambda>path. (a, Remove path (- 1))) ?paths\<rparr>"
  have pass: "passes_before env True s"
    using P B by (simp add: passes_before_def)
  have empty: "responses = [] \<Longrightarrow> ?paths = []"
    using wf(1) by simp
  have K2: "keeper ?s2 = Some a"
    using K by simp
  have R2: "removes_succeed env ?paths (clients ?s2 a)"
    using R by simp
  have C: "faultInjectionPostAction env ''multi'' requests responses ((), ?s2) =
      (Inr (), (), ?s3)"
  proof (cases "responses = []")
    case True
    then show ?thesis
      using empty by (simp add: faultInjectionPostAction_def doForEachCreatedEphemeralNode_def)
  next
    case False
    then show ?thesis
      using wf(1) for_each_removes [OF K2 wf(2) R2, of "()"]
      by (simp add: faultInjectionPostAction_def doForEachCreatedEphemeralNode_def)
  qed
  have "access env True True ''multi'' (front_path requests)
             (keeper_call (Multi requests) (k_multi env requests))
             (Some (\<lambda>responses. faultInjectionPostAction env ''multi'' requests responses))
             None ((), s) =
     (case (Inr () :: unit result) of
        Inr u \<Rightarrow> (Inl (KeeperException ZOPERATIONTIMEOUT), (),
                  access_caught ''multi'' (front_path requests) ZOPERATIONTIMEOUT ?s3)
      | Inl (KeeperException e) \<Rightarrow>
          (Inl (KeeperException e), (), access_caught ''multi'' (front_path requests) e ?s3)
      | Inl y \<Rightarrow> (Inl y, (), ?s3))"
    by (rule access_after_fires [where a = a and ?s2.0 = ?so and ?fp2.0 = "checked_before env fp"])
      (use K P M A pass C in \<open>simp_all add: keeper_call_set entered_def\<close>)
  moreover have "?s3 = s\<lparr>clients := (clients s)(a := after_removes env ?paths k),
           calls := calls s @ (a, Multi requests) # map (\<lambda>path. (a, Remove path (- 1))) ?paths,
           fault_policy := Some (checked_after env (checked_before env fp))\<rparr>"
    using P by (simp add: entered_def)
  ultimately show ?thesis
    by (simp add: multi_def)
qed

text \<open>
  When the first compensating \<^verbatim>\<open>remove\<close> throws a \<^verbatim>\<open>KeeperException\<close>, that exception
  is what \<^verbatim>\<open>multi\<close> throws, and no further \<^verbatim>\<open>remove\<close> is issued.
\<close>

lemma multi_cleanup_delete_throws:
  assumes K: "keeper s = Some a" and P: "fault_policy s = Some fp"
    and B: "\<not> fires_before env fp"
    and M: "k_multi env requests (clients s a) = (Inr responses, k)"
    and A: "fires_after env (checked_before env fp)"
    and wf: "responses \<noteq> []" "length responses = length requests"
    and first: "create_requests 0 requests = (i, req) # rest" "i < length responses"
      "responses ! i = CreateResponse e0 path_created"
    and R: "k_remove env path_created (- 1) k = (Inl (KeeperException e), k1)"
  shows "fst (multi env requests s) = Inl (KeeperException e)"
    and "calls (snd (multi env requests s)) =
           calls s @ [(a, Multi requests), (a, Remove path_created (- 1))]"
proof -
  let ?so = "(entered env True s)\<lparr>clients := (clients s)(a := k),
                                calls := calls s @ [(a, Multi requests)]\<rparr>"
  let ?s2 = "?so\<lparr>fault_policy := Some (checked_after env (checked_before env fp))\<rparr>"
  let ?s3 = "?s2\<lparr>clients := (clients ?s2)(a := k1),
                 calls := calls ?s2 @ [(a, Remove path_created (- 1))]\<rparr>"
  have pass: "passes_before env True s"
    using P B by (simp add: passes_before_def)
  have C: "faultInjectionPostAction env ''multi'' requests responses ((), ?s2) =
      (Inl (KeeperException e), (), ?s3)"
    using K wf first R
    by (simp add: faultInjectionPostAction_def doForEachCreatedEphemeralNode_def
        remove_created_def keeper_call_set)
  have "access env True True ''multi'' (front_path requests)
             (keeper_call (Multi requests) (k_multi env requests))
             (Some (\<lambda>responses. faultInjectionPostAction env ''multi'' requests responses))
             None ((), s) =
     (case (Inl (KeeperException e) :: unit result) of
        Inr u \<Rightarrow> (Inl (KeeperException ZOPERATIONTIMEOUT), (),
                  access_caught ''multi'' (front_path requests) ZOPERATIONTIMEOUT ?s3)
      | Inl (KeeperException e) \<Rightarrow>
          (Inl (KeeperException e), (), access_caught ''multi'' (front_path requests) e ?s3)
      | Inl y \<Rightarrow> (Inl y, (), ?s3))"
    by (rule access_after_fires [where a = a and ?s2.0 = ?so and ?fp2.0 = "checked_before env fp"])
      (use K P M A pass C in \<open>simp_all add: keeper_call_set entered_def\<close>)
  then show "fst (multi env requests s) = Inl (KeeperException e)"
    and "calls (snd (multi env requests s)) =
           calls s @ [(a, Multi requests), (a, Remove path_created (- 1))]"
    by (simp_all add: multi_def)
qed

text \<open>
  C1 at a concrete input.  The batch creates the ephemeral node \<open>/a\<close>, removes it and
  creates the ephemeral node \<open>/b\<close>; it commits on the real client, and the checkpoint
  after the call fires.  The cleanup calls the throwing \<^verbatim>\<open>keeper->remove\<close> on \<open>/a\<close>,
  which is gone; its \<^verbatim>\<open>ZNONODE\<close> exception ends the scan and replaces the injected
  \<^verbatim>\<open>ZOPERATIONTIMEOUT\<close>.  The caller gets \<^verbatim>\<open>ZNONODE\<close>, no delete is issued for \<open>/b\<close>, and
  \<open>/b\<close> is still there.
\<close>

theorem C1_delete_failure_ends_cleanup:
  "fst (multi mem_env create_remove_create (mem_proxy forced_after (mem_world [])))
     = Inl (KeeperException ZNONODE)
   \<and> calls (snd (multi mem_env create_remove_create (mem_proxy forced_after (mem_world []))))
     = [(0, Multi create_remove_create), (0, Remove ''/a'' (- 1))]
   \<and> nodes (clients (snd (multi mem_env create_remove_create
                             (mem_proxy forced_after (mem_world [])))) 0)
     = [''/b'']"
  by (simp add: run_defs mem_defs create_remove_create_def)

section \<open>C5: which native errors a try method returns\<close>

text \<open>
  The handler of \<^verbatim>\<open>access\<close> has no list of codes for the method at hand: when the call
  throws a \<^verbatim>\<open>KeeperException\<close>, every code that is not a hardware error is returned.
\<close>

lemma forward_Error_returns_every_other_code:
  assumes "keeper s = Some a" and "passes_before env True s"
    and "method (clients (entered env True s) a) = (Inl (KeeperException e), k)"
    and "\<not> isHardwareError env e"
  shows "fst (forward_Error env func_name path c method s) = Inr e"
  using assms
  by (simp add: forward_Error_def access_Error_def access_try_enters keeper_call_def
      call_client_def entered_def split: option.splits)

text \<open>
  C5 at a concrete input: \<^verbatim>\<open>tryRemove\<close> on an invalid path.  The real client throws
  \<^verbatim>\<open>ZBADARGUMENTS\<close>, which is neither a hardware error nor one of the codes a remove
  returns (\<^verbatim>\<open>ZNONODE\<close>, \<^verbatim>\<open>ZBADVERSION\<close>, \<^verbatim>\<open>ZNOTEMPTY\<close>); no fault is injected.  The
  proxy returns the code where the claim has it thrown.
\<close>

theorem C5_unlisted_error_is_returned:
  "fst (mem_tryRemove [] (- 1) \<lparr>connected = True, nodes = []\<rparr>)
     = Inl (KeeperException ZBADARGUMENTS)
   \<and> \<not> mem_isHardwareError ZBADARGUMENTS
   \<and> fst (tryRemove mem_env [] (- 1) (mem_proxy quiet (mem_world []))) = Inr ZBADARGUMENTS"
  by (simp add: run_defs mem_defs)

section \<open>C10: tryCreate deletes and tracks ephemeral nodes only\<close>

lemma tryCreate_cleanup_keeps_path:
  "fst (snd (tryCreate_cleanup env path mode code (path_created, s))) = path_created"
  by (simp add: tryCreate_cleanup_def remove_created_def keeper_call_def
      split: option.splits prod.splits sum.splits exn.splits)

lemma tryCreate_cleanup_skips:
  "\<not> (is_ephemeral_mode mode \<and> path_created \<noteq> []) \<Longrightarrow>
   tryCreate_cleanup env path mode code (path_created, s) = (Inr (), path_created, s)"
  by (auto simp: tryCreate_cleanup_def)

lemma collect_after_tryCreate_skips:
  "\<not> (is_ephemeral_mode mode \<and> path_created \<noteq> []) \<Longrightarrow>
   collect_after_tryCreate mode (r, path_created, s) = (r, path_created, s)"
  by (auto simp: collect_after_tryCreate_def split: sum.splits)

lemma collect_after_tryCreate_path:
  "fst (snd (collect_after_tryCreate mode (r, path_created, s))) = path_created"
  by (simp add: collect_after_tryCreate_def split: sum.splits)

text \<open>What \<^verbatim>\<open>access\<close> leaves behind in \<^verbatim>\<open>tryCreate\<close> when the mode is not ephemeral or
  no path was created: nothing tracked, and no call but the one \<^verbatim>\<open>tryCreate\<close>.\<close>

lemma tryCreate_access_frame:
  assumes A: "access_Error env False True True ''tryCreate'' path
                (keeper_call_out (TryCreate path data mode) (\<lambda>l. k_tryCreate env path data mode))
                (Some (tryCreate_cleanup env path mode)) None ([], s) = (r, path_created, s')"
    and skip: "\<not> (is_ephemeral_mode mode \<and> path_created \<noteq> [])"
  shows "ephemeral_nodes s' = ephemeral_nodes s
     \<and> (\<forall>c \<in> set (calls_since s s'). snd c = TryCreate path data mode)"
proof (cases "keeper s")
  case None
  with A show ?thesis
    by (auto simp: access_Error_null calls_since_def)
next
  case (Some a)
  show ?thesis
  proof (cases "passes_before env True s")
    case False
    then obtain fp where "fault_policy s = Some fp" and "fires_before env fp"
      by (auto simp: passes_before_def split: option.splits)
    with A Some show ?thesis
      by (auto simp: access_Error_before_fires calls_since_def)
  next
    case True
    let ?op = "keeper_call_out (TryCreate path data mode) (\<lambda>l. k_tryCreate env path data mode)"
    obtain ro pco k where K: "k_tryCreate env path data mode (clients s a) = ((ro, pco), k)"
      by (metis surj_pair)
    define so where
      "so = (entered env True s)\<lparr>clients := (clients s)(a := k),
                                calls := calls s @ [(a, TryCreate path data mode)]\<rparr>"
    have op: "?op ([], entered env True s) = (ro, pco, so)"
      using Some K by (simp add: keeper_call_out_set so_def)
    have so_frame: "ephemeral_nodes so = ephemeral_nodes s"
      "calls so = calls s @ [(a, TryCreate path data mode)]"
      by (simp_all add: so_def)
    show ?thesis
    proof (cases ro)
      case (Inl x)
      with A Some True op so_frame show ?thesis
        by (auto simp: access_Error_throws calls_since_def split: exn.splits)
    next
      case (Inr res)
      show ?thesis
      proof (cases "isHardwareError env res")
        case hw: True
        with A Some True op Inr so_frame show ?thesis
          by (auto simp: access_Error_hardware calls_since_def)
      next
        case nhw: False
        show ?thesis
        proof (cases "fault_policy so")
          case None
          with A Some True op Inr so_frame show ?thesis
            by (auto simp: access_Error_returns_no_policy calls_since_def)
        next
          case fp2: (Some fp2)
          show ?thesis
          proof (cases "fires_after env fp2")
            case False
            with A Some True op Inr so_frame nhw fp2 show ?thesis
              by (auto simp: access_Error_returns_quiet calls_since_def)
          next
            case fires: True
            let ?s2 = "so\<lparr>fault_policy := Some (checked_after env fp2)\<rparr>"
            obtain c l3 s3 where C: "tryCreate_cleanup env path mode res (pco, ?s2) = (c, l3, s3)"
              by (metis surj_pair)
            have l3: "l3 = pco"
              using tryCreate_cleanup_keeps_path [of env path mode res pco ?s2] C by simp
            have R: "(r, path_created, s') =
                (case c of
                   Inr u \<Rightarrow> (surfaced env False ZOPERATIONTIMEOUT, l3,
                             access_caught ''tryCreate'' path ZOPERATIONTIMEOUT s3)
                 | Inl (KeeperException e) \<Rightarrow>
                     (surfaced env False e, l3, access_caught ''tryCreate'' path e s3)
                 | Inl y \<Rightarrow> (Inl y, l3, s3))"
              using access_Error_after_fires
                [of s a env True ?op "[]" res pco so fp2 "Some (tryCreate_cleanup env path mode)"
                    c l3 s3 False "''tryCreate''" path None]
                A Some True op Inr nhw fp2 fires C
              by simp
            have pc: "path_created = pco"
              using R l3 by (auto split: sum.splits exn.splits)
            have "tryCreate_cleanup env path mode res (pco, ?s2) = (Inr (), pco, ?s2)"
              using skip pc by (simp add: tryCreate_cleanup_skips)
            with C have "c = Inr ()" and "s3 = ?s2"
              by simp_all
            with R so_frame show ?thesis
              by (simp add: calls_since_def)
          qed
        qed
      qed
    qed
  qed
qed

lemma tryCreate_not_ephemeral_frame:
  assumes "tryCreate env path data mode pc0 s = (r, path_created, s')"
    and "\<not> (is_ephemeral_mode mode \<and> path_created \<noteq> [])"
  shows "ephemeral_nodes s' = ephemeral_nodes s
     \<and> (\<forall>c \<in> set (calls_since s s'). snd c = TryCreate path data mode)"
proof -
  obtain r1 pc1 s1 where A:
    "access_Error env False True True ''tryCreate'' path
       (keeper_call_out (TryCreate path data mode) (\<lambda>l. k_tryCreate env path data mode))
       (Some (tryCreate_cleanup env path mode)) None ([], s) = (r1, pc1, s1)"
    by (metis surj_pair)
  have C: "collect_after_tryCreate mode (r1, pc1, s1) = (r, path_created, s')"
    using assms(1) A by (simp add: tryCreate_def)
  have pc: "pc1 = path_created"
    using collect_after_tryCreate_path [of mode r1 pc1 s1] C by simp
  have "s1 = s'"
    using C assms(2) pc by (simp add: collect_after_tryCreate_skips)
  with tryCreate_access_frame [OF A] assms(2) pc show ?thesis
    by simp
qed

text \<open>A create that is not ephemeral, failed by the checkpoint after the call.\<close>

lemma tryCreate_persistent_after_fault:
  assumes "keeper s = Some a" and "fault_policy s = Some fp" and "\<not> fires_before env fp"
    and K: "k_tryCreate env path data mode (clients s a) = ((Inr code, created), k)"
    and "\<not> isHardwareError env code"
    and "fires_after env (checked_before env fp)"
    and "\<not> is_ephemeral_mode mode"
  shows "tryCreate env path data mode pc0 s =
     (surfaced env False ZOPERATIONTIMEOUT, created,
      access_caught ''tryCreate'' path ZOPERATIONTIMEOUT
        (s\<lparr>clients := (clients s)(a := k),
           calls := calls s @ [(a, TryCreate path data mode)],
           fault_policy := Some (checked_after env (checked_before env fp))\<rparr>))"
proof -
  let ?op = "keeper_call_out (TryCreate path data mode) (\<lambda>l. k_tryCreate env path data mode)"
  let ?so = "(entered env True s)\<lparr>clients := (clients s)(a := k),
                                calls := calls s @ [(a, TryCreate path data mode)]\<rparr>"
  let ?s2 = "?so\<lparr>fault_policy := Some (checked_after env (checked_before env fp))\<rparr>"
  have pass: "passes_before env True s"
    using assms by (simp add: passes_before_def)
  have op: "?op ([], entered env True s) = (Inr code, created, ?so)"
    using assms(1) K by (simp add: keeper_call_out_set)
  have fp2: "fault_policy ?so = Some (checked_before env fp)"
    using assms(2) by (simp add: entered_def)
  have C: "(case Some (tryCreate_cleanup env path mode) of
              None \<Rightarrow> (\<lambda>\<sigma>. (Inr (), \<sigma>)) | Some cleanup \<Rightarrow> cleanup code) (created, ?s2)
           = (Inr (), created, ?s2)"
    using assms(7) by (simp add: tryCreate_cleanup_skips)
  have "access_Error env False True True ''tryCreate'' path ?op
          (Some (tryCreate_cleanup env path mode)) None ([], s) =
        (surfaced env False ZOPERATIONTIMEOUT, created,
         access_caught ''tryCreate'' path ZOPERATIONTIMEOUT ?s2)"
    using access_Error_after_fires
      [of s a env True ?op "[]" code created ?so "checked_before env fp"
          "Some (tryCreate_cleanup env path mode)" "Inr ()" created ?s2 False
          "''tryCreate''" path None]
      assms(1) pass op assms(5) fp2 assms(6) C
    by simp
  moreover have "?s2 = s\<lparr>clients := (clients s)(a := k),
           calls := calls s @ [(a, TryCreate path data mode)],
           fault_policy := Some (checked_after env (checked_before env fp))\<rparr>"
    using assms(2) by (simp add: entered_def)
  ultimately show ?thesis
    using assms(7)
    by (simp add: tryCreate_def collect_after_tryCreate_skips)
qed

text \<open>
  C10: whenever the mode is not ephemeral or no path was created, \<^verbatim>\<open>tryCreate\<close> tracks
  nothing and calls nothing on the real client but the one \<^verbatim>\<open>tryCreate\<close>, so no
  compensating \<^verbatim>\<open>remove\<close>.  In particular, when a create with another mode succeeds on
  the real client (which becomes \<open>k\<close>) and the checkpoint after the call fires, the
  caller gets \<^verbatim>\<open>ZOPERATIONTIMEOUT\<close> (thrown when it counts as a hardware error, returned
  otherwise), the real client has received the create and nothing else and is left as
  \<open>k\<close>, with the node, and the path is not tracked.
\<close>

theorem C10_persistent_create_survives_injected_failure:
  "(tryCreate env path data mode pc0 s = (r, path_created, s')
      \<and> \<not> (is_ephemeral_mode mode \<and> path_created \<noteq> [])
    \<longrightarrow> ephemeral_nodes s' = ephemeral_nodes s
        \<and> (\<forall>c \<in> set (calls_since s s'). snd c = TryCreate path data mode))
   \<and> (keeper s = Some a \<and> fault_policy s = Some fp \<and> \<not> fires_before env fp
      \<and> k_tryCreate env path data mode (clients s a) = ((Inr code, created), k)
      \<and> \<not> isHardwareError env code
      \<and> fires_after env (checked_before env fp)
      \<and> \<not> is_ephemeral_mode mode
    \<longrightarrow> fst (tryCreate env path data mode pc0 s) = surfaced env False ZOPERATIONTIMEOUT
        \<and> fst (snd (tryCreate env path data mode pc0 s)) = created
        \<and> clients (snd (snd (tryCreate env path data mode pc0 s))) = (clients s)(a := k)
        \<and> calls (snd (snd (tryCreate env path data mode pc0 s)))
            = calls s @ [(a, TryCreate path data mode)]
        \<and> ephemeral_nodes (snd (snd (tryCreate env path data mode pc0 s)))
            = ephemeral_nodes s)"
proof (intro conjI impI)
  assume "tryCreate env path data mode pc0 s = (r, path_created, s')
      \<and> \<not> (is_ephemeral_mode mode \<and> path_created \<noteq> [])"
  then show "ephemeral_nodes s' = ephemeral_nodes s"
    and "\<forall>c \<in> set (calls_since s s'). snd c = TryCreate path data mode"
    using tryCreate_not_ephemeral_frame [of env path data mode pc0 s r path_created s']
    by simp_all
next
  assume H: "keeper s = Some a \<and> fault_policy s = Some fp \<and> \<not> fires_before env fp
      \<and> k_tryCreate env path data mode (clients s a) = ((Inr code, created), k)
      \<and> \<not> isHardwareError env code
      \<and> fires_after env (checked_before env fp)
      \<and> \<not> is_ephemeral_mode mode"
  have E: "tryCreate env path data mode pc0 s =
     (surfaced env False ZOPERATIONTIMEOUT, created,
      access_caught ''tryCreate'' path ZOPERATIONTIMEOUT
        (s\<lparr>clients := (clients s)(a := k),
           calls := calls s @ [(a, TryCreate path data mode)],
           fault_policy := Some (checked_after env (checked_before env fp))\<rparr>))"
    using H tryCreate_persistent_after_fault [of s a fp env path data mode code created k pc0]
    by simp
  show "fst (tryCreate env path data mode pc0 s) = surfaced env False ZOPERATIONTIMEOUT"
    and "fst (snd (tryCreate env path data mode pc0 s)) = created"
    and "clients (snd (snd (tryCreate env path data mode pc0 s))) = (clients s)(a := k)"
    and "calls (snd (snd (tryCreate env path data mode pc0 s)))
            = calls s @ [(a, TryCreate path data mode)]"
    and "ephemeral_nodes (snd (snd (tryCreate env path data mode pc0 s))) = ephemeral_nodes s"
    by (simp_all add: E)
qed

text \<open>A run: a persistent create of \<open>/a\<close> with the failure after the call forced.
  The caller is told \<^verbatim>\<open>ZOPERATIONTIMEOUT\<close>; the node is on the real client.\<close>

theorem C10_persistent_create_survives_injected_failure_witness:
  "fst (tryCreate mem_env ''/a'' ''x'' Persistent [] (mem_proxy forced_after (mem_world [])))
     = Inl (KeeperException ZOPERATIONTIMEOUT)
   \<and> nodes (clients (snd (snd (tryCreate mem_env ''/a'' ''x'' Persistent []
                                  (mem_proxy forced_after (mem_world []))))) 0) = [''/a'']
   \<and> calls (snd (snd (tryCreate mem_env ''/a'' ''x'' Persistent []
                         (mem_proxy forced_after (mem_world [])))))
     = [(0, TryCreate ''/a'' ''x'' Persistent)]
   \<and> ephemeral_nodes (snd (snd (tryCreate mem_env ''/a'' ''x'' Persistent []
                         (mem_proxy forced_after (mem_world []))))) = []"
  using C10_persistent_create_survives_injected_failure
    [of mem_env "''/a''" "''x''" Persistent "[]" "mem_proxy forced_after (mem_world [])"
        "fst (tryCreate mem_env ''/a'' ''x'' Persistent [] (mem_proxy forced_after (mem_world [])))"
        "fst (snd (tryCreate mem_env ''/a'' ''x'' Persistent []
                     (mem_proxy forced_after (mem_world []))))"
        "snd (snd (tryCreate mem_env ''/a'' ''x'' Persistent []
                     (mem_proxy forced_after (mem_world []))))"
        0 forced_after ZOK "''/a''" "\<lparr>connected = True, nodes = [''/a'']\<rparr>"]
  by (simp add: mem_defs fires_before_def fires_after_def checked_before_def surfaced_def
      is_ephemeral_mode_def)

section \<open>C8: the asynchronous methods when the checkpoint before the call fires\<close>

text \<open>
  C8, as stated, at a concrete input: \<^verbatim>\<open>asyncExists\<close> with the failure before the call
  forced.  The call returns, but the future is not set to a value: \<^verbatim>\<open>injectFailureBeforeOp\<close>
  uses \<^verbatim>\<open>set_exception\<close>, so the future holds an exception that \<^verbatim>\<open>get()\<close> will throw.
\<close>

theorem C8_future_holds_an_exception:
  "fst (asyncExists mem_env ''/a'' (mem_proxy forced_before (mem_world [])))
     = Inr (Stored_exception (KeeperException ZSESSIONEXPIRED))"
  by (simp add: async_defs run_defs mem_defs)

text \<open>
  C8, amended: every asynchronous method takes the draw of the checkpoint before the
  call first.  When the checkpoint fires the method returns without throwing and
  without a call on the real client, and the future it returns is already complete:
  for \<^verbatim>\<open>asyncExists\<close>, \<^verbatim>\<open>asyncTryGet\<close> and \<^verbatim>\<open>asyncTryRemove\<close> it holds the exception
  \<^verbatim>\<open>ZSESSIONEXPIRED\<close>; for \<^verbatim>\<open>asyncTryRemoveNoThrow\<close> and \<^verbatim>\<open>asyncTryCreateNoThrow\<close> it holds
  a response whose error is \<^verbatim>\<open>ZSESSIONEXPIRED\<close>; for \<^verbatim>\<open>asyncTryMultiNoThrow\<close> it holds one
  \<^verbatim>\<open>ZSESSIONEXPIRED\<close> error response per request of the batch (none for an empty batch).
  When the checkpoint does not fire, the request is submitted with the draw already
  taken.
\<close>

theorem C8_async_before_checkpoint:
  assumes "keeper s = Some a" and "fault_policy s = Some fp"
  shows
    "asyncExists env path s =
       (if fires_before env fp
        then (Inr (Stored_exception (KeeperException ZSESSIONEXPIRED)),
              LOG_TRACE (injected_fault_before (seed s) ''asyncExists'' path)
                (s\<lparr>fault_policy := Some (checked_before env fp)\<rparr>))
        else submit env (ImplExists path) Unset
               (s\<lparr>fault_policy := Some (checked_before env fp)\<rparr>))
     \<and> asyncTryGet env path s =
       (if fires_before env fp
        then (Inr (Stored_exception (KeeperException ZSESSIONEXPIRED)),
              LOG_TRACE (injected_fault_before (seed s) ''asyncTryGet'' path)
                (s\<lparr>fault_policy := Some (checked_before env fp)\<rparr>))
        else submit env (ImplGet path) Unset
               (s\<lparr>fault_policy := Some (checked_before env fp)\<rparr>))
     \<and> asyncTryRemove env path version s =
       (if fires_before env fp
        then (Inr (Stored_exception (KeeperException ZSESSIONEXPIRED)),
              LOG_TRACE (injected_fault_before (seed s) ''asyncTryRemove'' path)
                (s\<lparr>fault_policy := Some (checked_before env fp)\<rparr>))
        else submit env (ImplRemove path version) Unset
               (s\<lparr>fault_policy := Some (checked_before env fp)\<rparr>))
     \<and> asyncTryRemoveNoThrow env path version s =
       (if fires_before env fp
        then (Inr (Value (RemoveResponse ZSESSIONEXPIRED)),
              LOG_TRACE (injected_fault_before (seed s) ''asyncTryRemoveNoThrow'' path)
                (s\<lparr>fault_policy := Some (checked_before env fp)\<rparr>))
        else submit env (ImplRemove path version) Unset
               (s\<lparr>fault_policy := Some (checked_before env fp)\<rparr>))
     \<and> asyncTryCreateNoThrow env path data mode s =
       (if fires_before env fp
        then (Inr (Value (CreateResponse ZSESSIONEXPIRED [])),
              s\<lparr>fault_policy := Some (checked_before env fp)\<rparr>)
        else submit env (ImplCreate path data mode) Unset
               (s\<lparr>fault_policy := Some (checked_before env fp)\<rparr>))
     \<and> asyncTryMultiNoThrow env ops s =
       (if fires_before env fp
        then (Inr (Value (error_responses ops ZSESSIONEXPIRED)),
              LOG_TRACE (injected_fault_before (seed s) ''asyncTryMultiNoThrow'' (front_path ops))
                (s\<lparr>fault_policy := Some (checked_before env fp)\<rparr>))
        else submit env (ImplMulti ops) Unset
               (s\<lparr>fault_policy := Some (checked_before env fp)\<rparr>))
     \<and> (fires_before env fp \<longrightarrow>
          calls (snd (asyncExists env path s)) = calls s
        \<and> calls (snd (asyncTryGet env path s)) = calls s
        \<and> calls (snd (asyncTryRemove env path version s)) = calls s
        \<and> calls (snd (asyncTryRemoveNoThrow env path version s)) = calls s
        \<and> calls (snd (asyncTryCreateNoThrow env path data mode s)) = calls s
        \<and> calls (snd (asyncTryMultiNoThrow env ops s)) = calls s
        \<and> clients (snd (asyncExists env path s)) = clients s
        \<and> clients (snd (asyncTryGet env path s)) = clients s
        \<and> clients (snd (asyncTryRemove env path version s)) = clients s
        \<and> clients (snd (asyncTryRemoveNoThrow env path version s)) = clients s
        \<and> clients (snd (asyncTryCreateNoThrow env path data mode s)) = clients s
        \<and> clients (snd (asyncTryMultiNoThrow env ops s)) = clients s)"
  using assms
  by (simp add: async_defs beforeOperationNoThrow_eq)

text \<open>A run: the six methods with the failure before the call forced, and the calls
  the real client has received after each.\<close>

theorem C8_async_before_checkpoint_witness:
  "fst (asyncTryGet mem_env ''/a'' (mem_proxy forced_before (mem_world [])))
     = Inr (Stored_exception (KeeperException ZSESSIONEXPIRED))
   \<and> fst (asyncTryRemoveNoThrow mem_env ''/a'' (- 1) (mem_proxy forced_before (mem_world [])))
     = Inr (Value (RemoveResponse ZSESSIONEXPIRED))
   \<and> fst (asyncTryMultiNoThrow mem_env create_remove_create
            (mem_proxy forced_before (mem_world [])))
     = Inr (Value [ZooKeeperErrorResponse ZSESSIONEXPIRED, ZooKeeperErrorResponse ZSESSIONEXPIRED,
                   ZooKeeperErrorResponse ZSESSIONEXPIRED])
   \<and> fst (asyncTryMultiNoThrow mem_env [] (mem_proxy forced_before (mem_world [])))
     = Inr (Value [])
   \<and> calls (snd (asyncTryMultiNoThrow mem_env create_remove_create
            (mem_proxy forced_before (mem_world [])))) = []"
  using C8_async_before_checkpoint
    [of "mem_proxy forced_before (mem_world [])" 0 forced_before mem_env "''/a''" "- 1"
        "''x''" Persistent create_remove_create]
    C8_async_before_checkpoint
    [of "mem_proxy forced_before (mem_world [])" 0 forced_before mem_env "''/a''" "- 1"
        "''x''" Persistent "[]"]
  by (simp add: mem_defs fires_before_def error_responses_def create_remove_create_def)

section \<open>C6: a hardware error code that the real client returns\<close>

lemma collect_after_tryMulti_not_ZOK:
  "r \<noteq> Inr ZOK \<Longrightarrow>
   collect_after_tryMulti method requests (r, responses, s) = (r, responses, s)"
  by (cases r) (auto simp: collect_after_tryMulti_def)

lemma forward_Error_hardware:
  assumes "keeper s = Some a" and "passes_before env True s"
    and "method (clients s a) = (Inr res, k)" and "isHardwareError env res"
  shows "forward_Error env f p c method s =
     (Inr res, (entered env True s)\<lparr>clients := (clients s)(a := k), calls := calls s @ [(a, c)]\<rparr>)"
proof -
  have "access_Error env False True True f p (keeper_call c method) None None ((), s) =
      (Inr res, (),
       (entered env True s)\<lparr>clients := (clients s)(a := k), calls := calls s @ [(a, c)]\<rparr>)"
    by (rule access_Error_hardware [where a = a]) (simp_all add: assms keeper_call_set)
  then show ?thesis
    by (simp add: forward_Error_def)
qed

lemma tryMulti_hardware:
  assumes "keeper s = Some a" and "passes_before env True s"
    and "k_tryMulti env requests responses (clients s a) = ((Inr res, responses1), k)"
    and "isHardwareError env res" and "\<not> isHardwareError env ZOK"
  shows "tryMulti env requests responses s =
     (Inr res, responses1,
      (entered env True s)\<lparr>clients := (clients s)(a := k),
                            calls := calls s @ [(a, TryMulti requests)]\<rparr>)"
proof -
  have "Inr res \<noteq> (Inr ZOK :: Error result)"
    using assms(4,5) by auto
  moreover have "access_Error env False True True ''tryMulti'' (front_path requests)
          (keeper_call_out (TryMulti requests) (k_tryMulti env requests))
          (Some (\<lambda>original_error \<sigma>.
             if original_error = ZOK
             then faultInjectionPostAction env ''tryMulti'' requests (fst \<sigma>) \<sigma>
             else (Inr (), \<sigma>)))
          (Some (\<lambda>responses. error_responses requests ZOPERATIONTIMEOUT))
          (responses, s) =
      (Inr res, responses1,
       (entered env True s)\<lparr>clients := (clients s)(a := k),
                             calls := calls s @ [(a, TryMulti requests)]\<rparr>)"
    by (rule access_Error_hardware [where a = a]) (simp_all add: assms keeper_call_out_set)
  ultimately show ?thesis
    by (simp add: tryMulti_def collect_after_tryMulti_not_ZOK)
qed

lemma tryMultiNoThrow_hardware:
  assumes "keeper s = Some a"
    and "k_tryMultiNoThrow env requests responses (clients s a) = ((Inr res, responses1), k)"
    and "isHardwareError env res" and "\<not> isHardwareError env ZOK"
  shows "tryMultiNoThrow env requests responses s =
     (Inr res, responses1,
      s\<lparr>clients := (clients s)(a := k), calls := calls s @ [(a, TryMultiNoThrow requests)]\<rparr>)"
proof -
  have "Inr res \<noteq> (Inr ZOK :: Error result)"
    using assms(3,4) by auto
  moreover have "access_Error env True False True ''tryMultiNoThrow'' (front_path requests)
          (keeper_call_out (TryMultiNoThrow requests) (k_tryMultiNoThrow env requests))
          (Some (\<lambda>original_error \<sigma>.
             if original_error = ZOK
             then faultInjectionPostAction env ''tryMultiNoThrow'' requests (fst \<sigma>) \<sigma>
             else (Inr (), \<sigma>)))
          (Some (\<lambda>responses. error_responses requests ZOPERATIONTIMEOUT))
          (responses, s) =
      (Inr res, responses1,
       s\<lparr>clients := (clients s)(a := k), calls := calls s @ [(a, TryMultiNoThrow requests)]\<rparr>)"
    by (rule access_Error_hardware [where a = a]) (simp_all add: assms keeper_call_out_set)
  ultimately show ?thesis
    by (simp add: tryMultiNoThrow_def collect_after_tryMulti_not_ZOK)
qed

lemma tryCreate_hardware:
  assumes "keeper s = Some a" and "passes_before env True s"
    and "k_tryCreate env path data mode (clients s a) = ((Inr res, created), k)"
    and "isHardwareError env res"
  shows "tryCreate env path data mode pc0 s =
     collect_after_tryCreate mode
       (Inr res, created,
        (entered env True s)\<lparr>clients := (clients s)(a := k),
                              calls := calls s @ [(a, TryCreate path data mode)]\<rparr>)"
proof -
  have "access_Error env False True True ''tryCreate'' path
          (keeper_call_out (TryCreate path data mode) (\<lambda>l. k_tryCreate env path data mode))
          (Some (tryCreate_cleanup env path mode)) None ([], s) =
      (Inr res, created,
       (entered env True s)\<lparr>clients := (clients s)(a := k),
                             calls := calls s @ [(a, TryCreate path data mode)]\<rparr>)"
    by (rule access_Error_hardware [where a = a]) (simp_all add: assms keeper_call_out_set)
  then show ?thesis
    by (simp add: tryCreate_def)
qed

text \<open>
  C6.  The client is set, \<^verbatim>\<open>ZOK\<close> does not count as a hardware error, no fault was
  injected before the call, and the call returns the hardware error code \<open>res\<close>.  Then
  \<^verbatim>\<open>access\<close> returns \<open>res\<close> and leaves the state as the operation left it: the policy
  has taken the draw of the checkpoint before the call and no other, and its flag
  \<^verbatim>\<open>must_fail_after_op\<close> is untouched.  This is stated for \<^verbatim>\<open>access\<close> with an error-code
  result and any operation, for the plain mirror methods (\<^verbatim>\<open>tryGetChildren\<close>,
  \<^verbatim>\<open>tryRemove\<close>, \<^verbatim>\<open>trySet\<close>, ...), for \<^verbatim>\<open>tryMulti\<close>, \<^verbatim>\<open>tryMultiNoThrow\<close> (which has no
  checkpoint before the call) and \<^verbatim>\<open>tryCreate\<close>.
\<close>

theorem C6_hardware_error_code_is_returned_as_is:
  assumes "keeper s = Some a" and "\<not> isHardwareError env ZOK" and "isHardwareError env res"
  shows
    "(passes_before env ib s \<and> operation (l, entered env ib s) = (Inr res, \<sigma>2)
        \<longrightarrow> access_Error env nt ib ia f p operation ac bc (l, s) = (Inr res, \<sigma>2))
     \<and> (passes_before env True s \<and> method (clients s a) = (Inr res, k)
        \<longrightarrow> forward_Error env f p c method s =
              (Inr res,
               (entered env True s)\<lparr>clients := (clients s)(a := k),
                                     calls := calls s @ [(a, c)]\<rparr>))
     \<and> (passes_before env True s
          \<and> k_tryMulti env requests responses (clients s a) = ((Inr res, responses1), k)
        \<longrightarrow> tryMulti env requests responses s =
              (Inr res, responses1,
               (entered env True s)\<lparr>clients := (clients s)(a := k),
                                     calls := calls s @ [(a, TryMulti requests)]\<rparr>))
     \<and> (k_tryMultiNoThrow env requests responses (clients s a) = ((Inr res, responses1), k)
        \<longrightarrow> tryMultiNoThrow env requests responses s =
              (Inr res, responses1,
               s\<lparr>clients := (clients s)(a := k),
                 calls := calls s @ [(a, TryMultiNoThrow requests)]\<rparr>))
     \<and> (passes_before env True s
          \<and> k_tryCreate env path data mode (clients s a) = ((Inr res, created), k)
        \<longrightarrow> fst (tryCreate env path data mode pc0 s) = Inr res
            \<and> fault_policy (snd (snd (tryCreate env path data mode pc0 s)))
                = fault_policy (entered env True s)
            \<and> calls (snd (snd (tryCreate env path data mode pc0 s)))
                = calls s @ [(a, TryCreate path data mode)])"
proof (intro conjI impI)
  assume "passes_before env ib s \<and> operation (l, entered env ib s) = (Inr res, \<sigma>2)"
  then show "access_Error env nt ib ia f p operation ac bc (l, s) = (Inr res, \<sigma>2)"
    using access_Error_hardware [of s a env ib operation l res \<sigma>2] assms by simp
next
  assume "passes_before env True s \<and> method (clients s a) = (Inr res, k)"
  then show "forward_Error env f p c method s =
      (Inr res,
       (entered env True s)\<lparr>clients := (clients s)(a := k), calls := calls s @ [(a, c)]\<rparr>)"
    using forward_Error_hardware [of s a env "method" res k] assms by simp
next
  assume "passes_before env True s
          \<and> k_tryMulti env requests responses (clients s a) = ((Inr res, responses1), k)"
  then show "tryMulti env requests responses s =
      (Inr res, responses1,
       (entered env True s)\<lparr>clients := (clients s)(a := k),
                             calls := calls s @ [(a, TryMulti requests)]\<rparr>)"
    using tryMulti_hardware [of s a env requests responses res responses1 k] assms by simp
next
  assume "k_tryMultiNoThrow env requests responses (clients s a) = ((Inr res, responses1), k)"
  then show "tryMultiNoThrow env requests responses s =
      (Inr res, responses1,
       s\<lparr>clients := (clients s)(a := k), calls := calls s @ [(a, TryMultiNoThrow requests)]\<rparr>)"
    using tryMultiNoThrow_hardware [of s a env requests responses res responses1 k] assms
    by simp
next
  assume H: "passes_before env True s
          \<and> k_tryCreate env path data mode (clients s a) = ((Inr res, created), k)"
  have E: "tryCreate env path data mode pc0 s =
     collect_after_tryCreate mode
       (Inr res, created,
        (entered env True s)\<lparr>clients := (clients s)(a := k),
                              calls := calls s @ [(a, TryCreate path data mode)]\<rparr>)"
    using H tryCreate_hardware [of s a env path data mode res created k pc0] assms by simp
  show "fst (tryCreate env path data mode pc0 s) = Inr res"
    and "fault_policy (snd (snd (tryCreate env path data mode pc0 s)))
           = fault_policy (entered env True s)"
    and "calls (snd (snd (tryCreate env path data mode pc0 s)))
           = calls s @ [(a, TryCreate path data mode)]"
    by (simp_all add: E collect_after_tryCreate_def)
qed

text \<open>A run: \<^verbatim>\<open>tryMultiNoThrow\<close> and the connection is down.  The failure after the
  call is forced, and yet the caller gets the \<^verbatim>\<open>ZCONNECTIONLOSS\<close> of the real client,
  and the policy is as it was: no draw taken, the override still set.\<close>

theorem C6_hardware_error_code_is_returned_as_is_witness:
  "tryMultiNoThrow mem_env create_remove_create []
       (mem_proxy forced_after (mem_world_down [])) =
     (Inr ZCONNECTIONLOSS, [],
      (mem_proxy forced_after (mem_world_down []))
        \<lparr>clients := (clients (mem_proxy forced_after (mem_world_down [])))
                      (0 := \<lparr>connected = False, nodes = []\<rparr>),
         calls := [(0, TryMultiNoThrow create_remove_create)]\<rparr>)
   \<and> fault_policy (mem_proxy forced_after (mem_world_down [])) = Some forced_after"
  using C6_hardware_error_code_is_returned_as_is
    [where s = "mem_proxy forced_after (mem_world_down [])" and a = 0 and env = mem_env
       and res = ZCONNECTIONLOSS and requests = create_remove_create and responses = "[]"
       and ?responses1.0 = "[]" and k = "\<lparr>connected = False, nodes = []\<rparr>",
     THEN conjunct2, THEN conjunct2, THEN conjunct2, THEN conjunct1]
  by (simp add: mem_defs)

section \<open>C3: a null client, or the checkpoint before the call firing\<close>





























section \<open>C2: probability zero\<close>

text \<open>
  Without a policy and without a logger, and with a client set, the methods built on
  \<^verbatim>\<open>access\<close> and the asynchronous methods make one call on the real client, log nothing
  and track nothing.  The result is the one of that call, except where the handler of
  \<^verbatim>\<open>access\<close> turns a thrown code into a returned one.
\<close>

lemma access_caught_silent:
  "\<not> logger s \<Longrightarrow> keeper s = Some a \<Longrightarrow> access_caught f p e s = s\<lparr>keeper_prev := Some a\<rparr>"
  by (simp add: access_caught_def LOG_TRACE_def)

lemma access_Error_no_policy:
  assumes "keeper s = Some a" and "fault_policy s = None"
    and "operation (l, s) = (r, l2, s2)" and "fault_policy s2 = None"
  shows "access_Error env nt ib ia f p operation ac bc (l, s) =
     (case r of
        Inl (KeeperException e) \<Rightarrow> (surfaced env nt e, l2, access_caught f p e s2)
      | _ \<Rightarrow> (r, l2, s2))"
proof (cases r)
  case (Inl x)
  have "access_Error env nt ib ia f p operation ac bc (l, s) =
     (case x of
        KeeperException e \<Rightarrow> (surfaced env nt e, l2, access_caught f p e s2)
      | _ \<Rightarrow> (Inl x, l2, s2))"
    by (rule access_Error_throws [where a = a]) (simp_all add: assms Inl [symmetric])
  then show ?thesis
    using Inl by (simp split: exn.splits)
next
  case (Inr res)
  have "access_Error env nt ib ia f p operation ac bc (l, s) = (Inr res, l2, s2)"
    by (rule access_Error_returns_no_policy [where a = a]) (simp_all add: assms Inr [symmetric])
  then show ?thesis
    using Inr by simp
qed

lemma access_no_policy:
  assumes "keeper s = Some a" and "fault_policy s = None"
    and "operation (l, s) = (r, l2, s2)" and "fault_policy s2 = None"
  shows "access env ib ia f p operation ac bc (l, s) =
     (case r of
        Inl (KeeperException e) \<Rightarrow> (r, l2, access_caught f p e s2)
      | _ \<Rightarrow> (r, l2, s2))"
proof (cases r)
  case (Inl x)
  have "access env ib ia f p operation ac bc (l, s) =
     (case x of
        KeeperException e \<Rightarrow> (Inl x, l2, access_caught f p e s2)
      | _ \<Rightarrow> (Inl x, l2, s2))"
    by (rule access_throws [where a = a]) (simp_all add: assms Inl [symmetric])
  then show ?thesis
    using Inl by (simp split: exn.splits)
next
  case (Inr res)
  have "access env ib ia f p operation ac bc (l, s) = (Inr res, l2, s2)"
    by (rule access_returns_no_policy [where a = a]) (simp_all add: assms Inr [symmetric])
  then show ?thesis
    using Inr by simp
qed

text \<open>The state after one call through \<^verbatim>\<open>keeper\<close>, and the same with \<^verbatim>\<open>keeper_prev\<close>
  set by the handler.\<close>

lemma forwarded_call:
  "keeper s = Some a \<Longrightarrow>
   forwarded s a c k (s\<lparr>clients := (clients s)(a := k), calls := calls s @ [(a, c)]\<rparr>)"
  by (simp add: forwarded_def)

lemma forwarded_caught:
  "\<not> logger s' \<Longrightarrow> forwarded s a c k s' \<Longrightarrow> forwarded s a c k (access_caught f p e s')"
  by (simp add: forwarded_def access_caught_def LOG_TRACE_def Let_def)

lemma forward_no_policy:
  assumes "keeper s = Some a" and "fault_policy s = None" and "\<not> logger s"
  shows "fst (forward env f p c method s) = fst (method (clients s a))
     \<and> forwarded s a c (snd (method (clients s a))) (snd (forward env f p c method s))"
proof -
  let ?so = "s\<lparr>clients := (clients s)(a := snd (method (clients s a))),
               calls := calls s @ [(a, c)]\<rparr>"
  have A: "access env True True f p (keeper_call c method) None None ((), s) =
     (case fst (method (clients s a)) of
        Inl (KeeperException e) \<Rightarrow> (fst (method (clients s a)), (), access_caught f p e ?so)
      | _ \<Rightarrow> (fst (method (clients s a)), (), ?so))"
    by (rule access_no_policy [where a = a]) (simp_all add: assms keeper_call_set)
  have F: "forwarded s a c (snd (method (clients s a))) ?so"
    using assms(1) by (rule forwarded_call)
  show ?thesis
    using F forwarded_caught [OF _ F] assms(3)
    by (simp add: forward_def A split: sum.splits exn.splits)
qed

lemma forward_Error_no_policy:
  assumes "keeper s = Some a" and "fault_policy s = None" and "\<not> logger s"
  shows "(not_user_KeeperException env (fst (method (clients s a)))
          \<longrightarrow> fst (forward_Error env f p c method s) = fst (method (clients s a)))
     \<and> forwarded s a c (snd (method (clients s a))) (snd (forward_Error env f p c method s))"
proof -
  let ?so = "s\<lparr>clients := (clients s)(a := snd (method (clients s a))),
               calls := calls s @ [(a, c)]\<rparr>"
  have A: "access_Error env False True True f p (keeper_call c method) None None ((), s) =
     (case fst (method (clients s a)) of
        Inl (KeeperException e) \<Rightarrow> (surfaced env False e, (), access_caught f p e ?so)
      | _ \<Rightarrow> (fst (method (clients s a)), (), ?so))"
    by (rule access_Error_no_policy [where a = a]) (simp_all add: assms keeper_call_set)
  have F: "forwarded s a c (snd (method (clients s a))) ?so"
    using assms(1) by (rule forwarded_call)
  show ?thesis
    using F forwarded_caught [OF _ F] assms(3)
    by (simp add: forward_Error_def A not_user_KeeperException_def surfaced_def
        split: sum.splits exn.splits)
qed

lemma multi_no_policy:
  assumes "keeper s = Some a" and "fault_policy s = None" and "\<not> logger s"
  shows "fst (multi env requests s) = fst (k_multi env requests (clients s a))
     \<and> forwarded s a (Multi requests) (snd (k_multi env requests (clients s a)))
         (snd (multi env requests s))"
proof -
  let ?R = "k_multi env requests (clients s a)"
  let ?so = "s\<lparr>clients := (clients s)(a := snd ?R), calls := calls s @ [(a, Multi requests)]\<rparr>"
  have A: "access env True True ''multi'' (front_path requests)
             (keeper_call (Multi requests) (k_multi env requests))
             (Some (\<lambda>responses. faultInjectionPostAction env ''multi'' requests responses))
             None ((), s) =
     (case fst ?R of
        Inl (KeeperException e) \<Rightarrow>
          (fst ?R, (), access_caught ''multi'' (front_path requests) e ?so)
      | _ \<Rightarrow> (fst ?R, (), ?so))"
    by (rule access_no_policy [where a = a]) (simp_all add: assms keeper_call_set)
  have F: "forwarded s a (Multi requests) (snd ?R) ?so"
    using assms(1) by (rule forwarded_call)
  show ?thesis
    using F forwarded_caught [OF _ F] assms(3) assms(2)
    by (simp add: multi_def A split: sum.splits exn.splits)
qed

lemma collect_after_tryMulti_no_policy:
  "fault_policy s = None \<Longrightarrow>
   collect_after_tryMulti method requests (r, responses, s) = (r, responses, s)"
  by (simp add: collect_after_tryMulti_def split: sum.splits)

lemma collect_after_tryCreate_no_policy:
  "fault_policy s = None \<Longrightarrow> collect_after_tryCreate mode (r, path_created, s) = (r, path_created, s)"
  by (simp add: collect_after_tryCreate_def split: sum.splits)

lemma tryMulti_no_policy:
  assumes "keeper s = Some a" and "fault_policy s = None" and "\<not> logger s"
  shows "(not_user_KeeperException env (fst (fst (k_tryMulti env requests responses (clients s a))))
          \<longrightarrow> fst (tryMulti env requests responses s)
                = fst (fst (k_tryMulti env requests responses (clients s a))))
     \<and> fst (snd (tryMulti env requests responses s))
         = snd (fst (k_tryMulti env requests responses (clients s a)))
     \<and> forwarded s a (TryMulti requests) (snd (k_tryMulti env requests responses (clients s a)))
         (snd (snd (tryMulti env requests responses s)))"
proof -
  let ?R = "k_tryMulti env requests responses (clients s a)"
  let ?so = "s\<lparr>clients := (clients s)(a := snd ?R), calls := calls s @ [(a, TryMulti requests)]\<rparr>"
  have A: "access_Error env False True True ''tryMulti'' (front_path requests)
          (keeper_call_out (TryMulti requests) (k_tryMulti env requests))
          (Some (\<lambda>original_error \<sigma>.
             if original_error = ZOK
             then faultInjectionPostAction env ''tryMulti'' requests (fst \<sigma>) \<sigma>
             else (Inr (), \<sigma>)))
          (Some (\<lambda>responses. error_responses requests ZOPERATIONTIMEOUT))
          (responses, s) =
     (case fst (fst ?R) of
        Inl (KeeperException e) \<Rightarrow>
          (surfaced env False e, snd (fst ?R),
           access_caught ''tryMulti'' (front_path requests) e ?so)
      | _ \<Rightarrow> (fst (fst ?R), snd (fst ?R), ?so))"
    by (rule access_Error_no_policy [where a = a]) (simp_all add: assms keeper_call_out_set)
  have F: "forwarded s a (TryMulti requests) (snd ?R) ?so"
    using assms(1) by (rule forwarded_call)
  show ?thesis
    using F forwarded_caught [OF _ F] assms(3) assms(2)
    by (simp add: tryMulti_def A not_user_KeeperException_def surfaced_def
        collect_after_tryMulti_no_policy split: sum.splits exn.splits)
qed

lemma tryMultiNoThrow_no_policy:
  assumes "keeper s = Some a" and "fault_policy s = None" and "\<not> logger s"
  shows "(not_KeeperException (fst (fst (k_tryMultiNoThrow env requests responses (clients s a))))
          \<longrightarrow> fst (tryMultiNoThrow env requests responses s)
                = fst (fst (k_tryMultiNoThrow env requests responses (clients s a))))
     \<and> fst (snd (tryMultiNoThrow env requests responses s))
         = snd (fst (k_tryMultiNoThrow env requests responses (clients s a)))
     \<and> forwarded s a (TryMultiNoThrow requests)
         (snd (k_tryMultiNoThrow env requests responses (clients s a)))
         (snd (snd (tryMultiNoThrow env requests responses s)))"
proof -
  let ?R = "k_tryMultiNoThrow env requests responses (clients s a)"
  let ?so = "s\<lparr>clients := (clients s)(a := snd ?R),
               calls := calls s @ [(a, TryMultiNoThrow requests)]\<rparr>"
  have A: "access_Error env True False True ''tryMultiNoThrow'' (front_path requests)
          (keeper_call_out (TryMultiNoThrow requests) (k_tryMultiNoThrow env requests))
          (Some (\<lambda>original_error \<sigma>.
             if original_error = ZOK
             then faultInjectionPostAction env ''tryMultiNoThrow'' requests (fst \<sigma>) \<sigma>
             else (Inr (), \<sigma>)))
          (Some (\<lambda>responses. error_responses requests ZOPERATIONTIMEOUT))
          (responses, s) =
     (case fst (fst ?R) of
        Inl (KeeperException e) \<Rightarrow>
          (surfaced env True e, snd (fst ?R),
           access_caught ''tryMultiNoThrow'' (front_path requests) e ?so)
      | _ \<Rightarrow> (fst (fst ?R), snd (fst ?R), ?so))"
    by (rule access_Error_no_policy [where a = a]) (simp_all add: assms keeper_call_out_set)
  have F: "forwarded s a (TryMultiNoThrow requests) (snd ?R) ?so"
    using assms(1) by (rule forwarded_call)
  show ?thesis
    using F forwarded_caught [OF _ F] assms(3) assms(2)
    by (simp add: tryMultiNoThrow_def A not_KeeperException_def
        collect_after_tryMulti_no_policy split: sum.splits exn.splits)
qed

lemma tryCreate_no_policy:
  assumes "keeper s = Some a" and "fault_policy s = None" and "\<not> logger s"
  shows "(not_user_KeeperException env (fst (fst (k_tryCreate env path data mode (clients s a))))
          \<longrightarrow> fst (tryCreate env path data mode pc0 s)
                = fst (fst (k_tryCreate env path data mode (clients s a))))
     \<and> fst (snd (tryCreate env path data mode pc0 s))
         = snd (fst (k_tryCreate env path data mode (clients s a)))
     \<and> forwarded s a (TryCreate path data mode) (snd (k_tryCreate env path data mode (clients s a)))
         (snd (snd (tryCreate env path data mode pc0 s)))"
proof -
  let ?R = "k_tryCreate env path data mode (clients s a)"
  let ?so = "s\<lparr>clients := (clients s)(a := snd ?R),
               calls := calls s @ [(a, TryCreate path data mode)]\<rparr>"
  have A: "access_Error env False True True ''tryCreate'' path
          (keeper_call_out (TryCreate path data mode) (\<lambda>l. k_tryCreate env path data mode))
          (Some (tryCreate_cleanup env path mode)) None ([], s) =
     (case fst (fst ?R) of
        Inl (KeeperException e) \<Rightarrow>
          (surfaced env False e, snd (fst ?R), access_caught ''tryCreate'' path e ?so)
      | _ \<Rightarrow> (fst (fst ?R), snd (fst ?R), ?so))"
    by (rule access_Error_no_policy [where a = a]) (simp_all add: assms keeper_call_out_set)
  have F: "forwarded s a (TryCreate path data mode) (snd ?R) ?so"
    using assms(1) by (rule forwarded_call)
  show ?thesis
    using F forwarded_caught [OF _ F] assms(3) assms(2)
    by (simp add: tryCreate_def A not_user_KeeperException_def surfaced_def
        collect_after_tryCreate_no_policy split: sum.splits exn.splits)
qed

lemma submit_forwarded:
  assumes "keeper s = Some a"
  shows "fst (submit env c promise s) =
           (case fst (k_impl env c (clients s a)) of Inl x \<Rightarrow> Inl x | Inr u \<Rightarrow> Inr promise)
     \<and> forwarded s a c (snd (k_impl env c (clients s a))) (snd (submit env c promise s))"
  using assms
  by (simp add: submit_def keeper_call_set forwarded_def split: sum.splits)

lemma async_no_policy:
  assumes "keeper s = Some a" and "fault_policy s = None"
  shows "asyncExists env path s = submit env (ImplExists path) Unset s"
    and "asyncTryGet env path s = submit env (ImplGet path) Unset s"
    and "asyncTryRemove env path version s = submit env (ImplRemove path version) Unset s"
    and "asyncTryRemoveNoThrow env path version s = submit env (ImplRemove path version) Unset s"
    and "asyncTryCreateNoThrow env path data mode s = submit env (ImplCreate path data mode) Unset s"
    and "asyncTryMultiNoThrow env requests s = submit env (ImplMulti requests) Unset s"
  using assms
  by (simp_all add: asyncExists_def asyncTryGet_def asyncTryRemove_def asyncTryRemoveNoThrow_def
      asyncTryCreateNoThrow_def asyncTryMultiNoThrow_def injectFailureBeforeOp_def
      before_fault_NoThrow_def)

lemma createInstance_zero:
  assumes "p \<le> 0"
  shows "createInstance env p seed0 zookeeper name1 logger1 w =
     \<lparr>clients = clients w, calls = calls w, trace = trace w,
      keeper = zookeeper, keeper_prev = None, fault_policy = None,
      name = [], logger = False, seed = 0, ephemeral_nodes = []\<rparr>"
  using assms by (auto simp: createInstance_def Let_def)

text \<open>
  C2 at a concrete input.  The proxy is created with probability \<open>0\<close> over a live
  client: it has no policy and no logger.  \<^verbatim>\<open>tryRemove\<close> is called on an invalid path.
  The \<^verbatim>\<open>tryRemove\<close> of the real client throws \<^verbatim>\<open>ZBADARGUMENTS\<close>; the real client has
  received that one call, and the proxy returns \<^verbatim>\<open>ZBADARGUMENTS\<close> as a value: the handler
  of \<^verbatim>\<open>access\<close> returns every code that is not a hardware error.  The result of the
  proxy is not the result of the call it forwards.
\<close>

theorem C2_zero_probability_returns_thrown_code:
  "fault_policy (createInstance mem_env 0 7 (Some 0) ''proxy'' True (mem_world [''/a''])) = None
   \<and> \<not> logger (createInstance mem_env 0 7 (Some 0) ''proxy'' True (mem_world [''/a'']))
   \<and> fst (mem_tryRemove [] (- 1) \<lparr>connected = True, nodes = [''/a'']\<rparr>)
     = Inl (KeeperException ZBADARGUMENTS)
   \<and> \<not> mem_isHardwareError ZBADARGUMENTS
   \<and> fst (tryRemove mem_env [] (- 1)
         (createInstance mem_env 0 7 (Some 0) ''proxy'' True (mem_world [''/a''])))
     = Inr ZBADARGUMENTS
   \<and> calls (snd (tryRemove mem_env [] (- 1)
         (createInstance mem_env 0 7 (Some 0) ''proxy'' True (mem_world [''/a'']))))
     = [(0, TryRemove [] (- 1))]"
  by (simp add: run_defs mem_defs)

end
